theory Spec2Isabelle
  imports Complex_Main "HOL-Library.Multiset"
begin

section \<open>Errors\<close>

text \<open>
  The exceptions the modelled code can raise, as values. \<open>ValueError\<close> is what
  \<^verbatim>\<open>calc_cond_mean_spectrum_vector\<close> raises itself (``periods must be increasing'') and
  what numpy raises for an empty \<^verbatim>\<open>vstack\<close> or for operands whose shapes do not fit;
  \<open>IndexError\<close> is numpy's error for a boolean index whose length differs from the
  indexed array; \<open>LinAlgError\<close> is raised by \<^verbatim>\<open>np.linalg.inv\<close>.
\<close>

datatype error = ValueError | IndexError | LinAlgError

definition bindE :: "error + 'a \<Rightarrow> ('a \<Rightarrow> error + 'b) \<Rightarrow> error + 'b" where
  "bindE r f = (case r of Inl e \<Rightarrow> Inl e | Inr x \<Rightarrow> f x)"

section \<open>Arrays\<close>

text \<open>
  A one-dimensional float array is a list of reals: the model computes in exact
  arithmetic. A two-dimensional array carries its shape, as a numpy array does, so that
  arrays with no rows or no columns keep the other dimension.
\<close>

datatype mat = Mat (nrows: nat) (ncols: nat) (rows: "real list list")

definition mk_mat :: "nat \<Rightarrow> nat \<Rightarrow> (nat \<Rightarrow> nat \<Rightarrow> real) \<Rightarrow> mat" where
  "mk_mat r c f = Mat r c (map (\<lambda>i. map (\<lambda>j. f i j) [0..<c]) [0..<r])"

definition entry :: "mat \<Rightarrow> nat \<Rightarrow> nat \<Rightarrow> real" where
  "entry M i j = rows M ! i ! j"

text \<open>
  A masked array (\<^verbatim>\<open>np.ma.masked_array\<close>) of one dimension: each entry is the stored
  value together with its mask flag. In numpy a flag \<open>True\<close> means that the entry is
  masked. This is a masked array whose mask is a full boolean array of the length of
  the data; a masked array whose mask is numpy's scalar \<^verbatim>\<open>nomask\<close> is the other
  constructor of \<open>ma_argument\<close> below.
\<close>

type_synonym masked_array = "(real \<times> bool) list"

definition ma_data :: "masked_array \<Rightarrow> real list" where
  "ma_data c = map fst c"

definition ma_mask :: "masked_array \<Rightarrow> bool list" where
  "ma_mask c = map snd c"

definition count_masked :: "masked_array \<Rightarrow> nat" where
  "count_masked c = length (filter (\<lambda>b. b) (ma_mask c))"

definition ma_count :: "masked_array \<Rightarrow> nat" where
  "ma_count c = length (filter (\<lambda>b. \<not> b) (ma_mask c))"

text \<open>\<^verbatim>\<open>np.diff(xs)\<close>: the differences of neighbours, \<open>xs[i+1] - xs[i]\<close>.\<close>

definition np_diff :: "real list \<Rightarrow> real list" where
  "np_diff xs = map (\<lambda>(a, b). b - a) (zip xs (tl xs))"

text \<open>
  \<^verbatim>\<open>xs[m]\<close> for a boolean array \<open>m\<close>: the entries of \<open>xs\<close> where \<open>m\<close> holds, in their
  order; numpy raises IndexError when the lengths differ.
\<close>

definition bool_index :: "'a list \<Rightarrow> bool list \<Rightarrow> error + 'a list" where
  "bool_index xs m =
     (if length m \<noteq> length xs then Inl IndexError
      else Inr (map fst (filter snd (zip xs m))))"

text \<open>\<^verbatim>\<open>~mask\<close>.\<close>

definition invert_mask :: "bool list \<Rightarrow> bool list" where
  "invert_mask m = map Not m"

text \<open>\<^verbatim>\<open>np.r_[a, b]\<close> of two one-dimensional arrays.\<close>

definition np_r :: "'a list \<Rightarrow> 'a list \<Rightarrow> 'a list" where
  "np_r a b = a @ b"

text \<open>\<^verbatim>\<open>np.diag\<close> of a one-dimensional array: the square diagonal matrix.\<close>

definition np_diag :: "real list \<Rightarrow> mat" where
  "np_diag v = mk_mat (length v) (length v) (\<lambda>i j. if i = j then v ! i else 0)"

text \<open>\<^verbatim>\<open>np.diag\<close> of a two-dimensional array: its diagonal.\<close>

definition np_diagonal :: "mat \<Rightarrow> real list" where
  "np_diagonal M = map (\<lambda>i. entry M i i) [0..<min (nrows M) (ncols M)]"

text \<open>
  \<^verbatim>\<open>np.vstack\<close> of a list of one-dimensional arrays: ValueError for the empty list and
  for rows of different lengths.
\<close>

definition np_vstack :: "real list list \<Rightarrow> error + mat" where
  "np_vstack rs =
     (case rs of
        [] \<Rightarrow> Inl ValueError
      | r # _ \<Rightarrow>
          if list_all (\<lambda>q. length q = length r) rs
          then Inr (Mat (length rs) (length r) rs)
          else Inl ValueError)"

text \<open>\<^verbatim>\<open>M.T\<close>.\<close>

definition transpose_mat :: "mat \<Rightarrow> mat" where
  "transpose_mat M = mk_mat (ncols M) (nrows M) (\<lambda>i j. entry M j i)"

text \<open>
  \<^verbatim>\<open>A @ B\<close> for two-dimensional arrays: the matrix product, and ValueError when the
  inner dimensions differ.
\<close>

definition mat_prod :: "mat \<Rightarrow> mat \<Rightarrow> mat" where
  "mat_prod A B =
     mk_mat (nrows A) (ncols B)
       (\<lambda>i j. sum_list (map (\<lambda>k. entry A i k * entry B k j) [0..<ncols A]))"

definition matmul :: "mat \<Rightarrow> mat \<Rightarrow> error + mat" where
  "matmul A B = (if ncols A \<noteq> nrows B then Inl ValueError else Inr (mat_prod A B))"

text \<open>
  \<^verbatim>\<open>A - B\<close> for two-dimensional arrays of the same shape. (numpy would broadcast a
  dimension of length one; the function below only subtracts arrays of equal shape.)
\<close>

definition mat_minus :: "mat \<Rightarrow> mat \<Rightarrow> mat" where
  "mat_minus A B = mk_mat (nrows A) (ncols A) (\<lambda>i j. entry A i j - entry B i j)"

definition mat_sub :: "mat \<Rightarrow> mat \<Rightarrow> error + mat" where
  "mat_sub A B =
     (if nrows A \<noteq> nrows B \<or> ncols A \<noteq> ncols B then Inl ValueError
      else Inr (mat_minus A B))"

text \<open>\<^verbatim>\<open>a + b\<close> and \<^verbatim>\<open>a - b\<close> for one-dimensional arrays of the same length.\<close>

definition vec_add :: "real list \<Rightarrow> real list \<Rightarrow> error + real list" where
  "vec_add a b =
     (if length a \<noteq> length b then Inl ValueError
      else Inr (map (\<lambda>(x, y). x + y) (zip a b)))"

definition vec_sub :: "real list \<Rightarrow> real list \<Rightarrow> error + real list" where
  "vec_sub a b =
     (if length a \<noteq> length b then Inl ValueError
      else Inr (map (\<lambda>(x, y). x - y) (zip a b)))"

text \<open>
  \<^verbatim>\<open>M[r0:r1, c0:c1]\<close>: a slice is clipped to the array, as Python slices are.
\<close>

definition slice :: "mat \<Rightarrow> nat \<Rightarrow> nat \<Rightarrow> nat \<Rightarrow> nat \<Rightarrow> mat" where
  "slice M r0 r1 c0 c1 =
     mk_mat (min r1 (nrows M) - min r0 (nrows M)) (min c1 (ncols M) - min c0 (ncols M))
       (\<lambda>i j. entry M (r0 + i) (c0 + j))"

text \<open>\<^verbatim>\<open>np.asmatrix(v).T\<close>: the one-dimensional array as a column.\<close>

definition asmatrix_T :: "real list \<Rightarrow> mat" where
  "asmatrix_T v = mk_mat (length v) 1 (\<lambda>i j. v ! i)"

text \<open>\<^verbatim>\<open>np.ravel\<close>: the entries row by row.\<close>

definition np_ravel :: "mat \<Rightarrow> real list" where
  "np_ravel M = concat (rows M)"

text \<open>
  \<^verbatim>\<open>np.sqrt\<close>, entry by entry. On a negative entry numpy returns nan; the real
  square root of HOL is only meant on entries that are not negative.
\<close>

definition np_sqrt :: "real list \<Rightarrow> real list" where
  "np_sqrt v = map sqrt v"

definition np_zeros :: "nat \<Rightarrow> real list" where
  "np_zeros k = replicate k 0"

text \<open>
  \<^verbatim>\<open>np.argsort\<close>: the indices that sort the array. The model sorts stably; on arrays
  without duplicates every sorting algorithm returns the same indices.
\<close>

definition np_argsort :: "real list \<Rightarrow> nat list" where
  "np_argsort xs = sort_key (\<lambda>i. xs ! i) [0..<length xs]"

text \<open>\<^verbatim>\<open>xs[indices]\<close> for an integer index array; IndexError out of range.\<close>

definition take_indices :: "'a list \<Rightarrow> nat list \<Rightarrow> error + 'a list" where
  "take_indices xs idx =
     (if list_all (\<lambda>i. i < length xs) idx then Inr (map (\<lambda>i. xs ! i) idx)
      else Inl IndexError)"

section \<open>The correlation model\<close>

text \<open>
  Modelled from the spec: \<^verbatim>\<open>calc_correl\<close> of \<^verbatim>\<open>baker_jayaram_2008\<close> is imported by
  \<^verbatim>\<open>kishida_2017.py\<close> but is not among the sources. The spec describes it as the service
  that, given a sequence of periods and one reference period, returns for each period
  its correlation coefficient against the reference, in an array of the same length.
  The coefficient itself is the parameter \<open>correl\<close>.
\<close>

definition calc_correl :: "(real \<Rightarrow> real \<Rightarrow> real) \<Rightarrow> real list \<Rightarrow> real \<Rightarrow> real list" where
  "calc_correl correl periods period_cond = map (\<lambda>p. correl p period_cond) periods"

section \<open>The conditional mean spectrum vector\<close>

text \<open>
  Lines 56 and 58 of \<^verbatim>\<open>kishida_2017.py\<close>: \<^verbatim>\<open>np.r_[xs[mask], xs[~mask]]\<close>.
\<close>

definition grouped :: "'a list \<Rightarrow> bool list \<Rightarrow> error + 'a list" where
  "grouped xs msk =
     bindE (bool_index xs msk) (\<lambda>a.
     bindE (bool_index xs (invert_mask msk)) (\<lambda>b.
     Inr (np_r a b)))"

text \<open>
  Lines 58 to 63: the standard deviation matrix, the correlation matrix and the
  covariance matrix over the grouped periods.
\<close>

definition covariance :: "(real \<Rightarrow> real \<Rightarrow> real) \<Rightarrow> real list \<Rightarrow> real list \<Rightarrow> error + mat" where
  "covariance correl periods_grouped ln_stds_grouped =
     (let mat_ln_std = np_diag ln_stds_grouped in
      bindE (np_vstack (map (\<lambda>period_cond. calc_correl correl periods_grouped period_cond)
                          periods_grouped)) (\<lambda>stacked.
      let mat_correl = transpose_mat stacked in
      bindE (matmul mat_ln_std mat_correl) (\<lambda>m.
      matmul m mat_ln_std)))"

text \<open>
  The function \<^verbatim>\<open>calc_cond_mean_spectrum_vector\<close>. Its parameters \<open>correl\<close> and
  \<open>linalg_inv\<close> stand for the imported \<^verbatim>\<open>calc_correl\<close> and for \<^verbatim>\<open>np.linalg.inv\<close>.
\<close>

definition calc_cond_mean_spectrum_vector ::
  "(real \<Rightarrow> real \<Rightarrow> real) \<Rightarrow> (mat \<Rightarrow> error + mat) \<Rightarrow>
   real list \<Rightarrow> real list \<Rightarrow> real list \<Rightarrow> masked_array \<Rightarrow> error + (real list \<times> real list)" where
  "calc_cond_mean_spectrum_vector correl linalg_inv periods ln_psas ln_stds ln_psas_cond =
     (if \<not> list_all (\<lambda>d. d > 0) (np_diff periods) then Inl ValueError
      else
        let msk = ma_mask ln_psas_cond in
        bindE (grouped periods msk) (\<lambda>periods_grouped.
        bindE (grouped ln_stds msk) (\<lambda>ln_stds_grouped.
        bindE (covariance correl periods_grouped ln_stds_grouped) (\<lambda>mat_covar.
        let n = count_masked ln_psas_cond;
            mat_covar_11 = slice mat_covar 0 n 0 n;
            mat_covar_22 = slice mat_covar n (nrows mat_covar) n (ncols mat_covar);
            mat_covar_12 = slice mat_covar 0 n n (ncols mat_covar);
            mat_covar_21 = slice mat_covar n (nrows mat_covar) 0 n
        in
        bindE (linalg_inv mat_covar_22) (\<lambda>mat_covar_22_inv.
        bindE (bool_index (ma_data ln_psas_cond) (invert_mask msk)) (\<lambda>cond_unmasked.
        bindE (bool_index ln_psas (invert_mask msk)) (\<lambda>ln_psas_unmasked.
        bindE (vec_sub cond_unmasked ln_psas_unmasked) (\<lambda>resids.
        let mat_total_resids = asmatrix_T resids in
        bindE (bool_index ln_psas msk) (\<lambda>ln_psas_masked.
        bindE (matmul mat_covar_12 mat_covar_22_inv) (\<lambda>m1.
        bindE (matmul m1 mat_total_resids) (\<lambda>m2.
        bindE (vec_add ln_psas_masked (np_ravel m2)) (\<lambda>cmsv_masked.
        let ln_psas_cmsv = np_r cmsv_masked cond_unmasked in
        bindE (matmul m1 mat_covar_21) (\<lambda>m3.
        bindE (mat_sub mat_covar_11 m3) (\<lambda>m4.
        let ln_stds_cmsv = np_r (np_sqrt (np_diagonal m4)) (np_zeros (ma_count ln_psas_cond));
            indices = np_argsort periods_grouped
        in
        bindE (take_indices ln_psas_cmsv indices) (\<lambda>ln_psas_cmsv'.
        bindE (take_indices ln_stds_cmsv indices) (\<lambda>ln_stds_cmsv'.
        Inr (ln_psas_cmsv', ln_stds_cmsv')))))))))))))))))"

section \<open>The mask of the argument\<close>

text \<open>
  The argument \<open>ln_psas_cond\<close> as numpy has it: \<^verbatim>\<open>ln_psas_cond.mask\<close> is a full
  boolean array (\<open>Masked\<close>) when the masked array was built with an explicit mask
  array, and the scalar \<^verbatim>\<open>np.ma.nomask\<close>, which is \<^verbatim>\<open>False\<close>, when it was built
  with nothing masked and no mask given (\<open>Nomask\<close>, with the data).
\<close>

datatype ma_argument = Nomask "real list" | Masked masked_array

text \<open>
  The course of \<^verbatim>\<open>calc_cond_mean_spectrum_vector\<close> for the scalar mask, after the check
  of the periods. Indexing an array of \<open>N\<close> entries with the scalar \<^verbatim>\<open>False\<close> gives
  an array of shape \<open>(0, N)\<close>, with \<^verbatim>\<open>~mask\<close>, which is \<^verbatim>\<open>True\<close>, one of shape
  \<open>(1, N)\<close>, and \<^verbatim>\<open>np.r_\<close> of the two has shape \<open>(1, N)\<close>. So
  \<^verbatim>\<open>periods_grouped\<close> is the two-dimensional array with the periods as its only row;
  \<^verbatim>\<open>np.diag\<close> of the \<open>(1, M)\<close> array of the standard deviations is its diagonal, a
  one-dimensional array of \<open>min 1 M\<close> entries; the loop over \<^verbatim>\<open>periods_grouped\<close> runs
  once, and \<^verbatim>\<open>mat_correl\<close> has shape \<open>(N, 1)\<close> (\<^verbatim>\<open>calc_correl\<close> works entry by
  entry). The product \<^verbatim>\<open>mat_ln_std @ mat_correl\<close> raises ValueError unless
  \<open>min 1 M = N\<close> and has one entry otherwise; the product with \<^verbatim>\<open>mat_ln_std\<close>
  raises ValueError unless \<open>min 1 M = 1\<close> and is a scalar otherwise; and slicing the
  scalar, \<^verbatim>\<open>mat_covar[0:n, 0:n]\<close>, raises IndexError. The function never returns.
\<close>

definition calc_nomask :: "real list \<Rightarrow> real list \<Rightarrow> error" where
  "calc_nomask periods ln_stds =
     (if \<not> list_all (\<lambda>d. d > 0) (np_diff periods) then ValueError
      else
        let n_diag = min 1 (length ln_stds);
            n_rows = length periods
        in if n_diag \<noteq> n_rows then ValueError
           else if n_diag \<noteq> 1 then ValueError
           else IndexError)"

text \<open>The function for either kind of mask.\<close>

definition calc_cond_mean_spectrum_vector_ma ::
  "(real \<Rightarrow> real \<Rightarrow> real) \<Rightarrow> (mat \<Rightarrow> error + mat) \<Rightarrow>
   real list \<Rightarrow> real list \<Rightarrow> real list \<Rightarrow> ma_argument \<Rightarrow> error + (real list \<times> real list)" where
  "calc_cond_mean_spectrum_vector_ma correl linalg_inv periods ln_psas ln_stds ln_psas_cond =
     (case ln_psas_cond of
        Nomask d \<Rightarrow> Inl (calc_nomask periods ln_stds)
      | Masked c \<Rightarrow>
          calc_cond_mean_spectrum_vector correl linalg_inv periods ln_psas ln_stds c)"

section \<open>The covariance model of the spec\<close>

text \<open>
  The covariance between two groups of periods, as the spec's data model words it:
  entry \<open>(i, j)\<close> is \<open>std[i] * std[j] * correl(period[i], period[j])\<close>. The rows
  run over the periods \<open>ps\<close> with standard deviations \<open>ss\<close>, the columns over the
  periods \<open>qs\<close> with standard deviations \<open>ts\<close>.
\<close>

definition cov_block ::
  "(real \<Rightarrow> real \<Rightarrow> real) \<Rightarrow> real list \<Rightarrow> real list \<Rightarrow> real list \<Rightarrow> real list \<Rightarrow> mat" where
  "cov_block correl ps ss qs ts =
     mk_mat (length ps) (length qs) (\<lambda>i j. ss ! i * ts ! j * correl (ps ! i) (qs ! j))"

text \<open>
  The conditional mean at the free periods, in the words of the spec: the unconditioned
  log-mean there, plus the free-to-conditioning covariance block times the inverse of
  the conditioning block times the residual, where the residual is the target minus
  the unconditioned log-mean at the conditioning periods. The inverse is the argument
  \<open>c_inv\<close>.
\<close>

definition residual :: "real list \<Rightarrow> real list \<Rightarrow> real list" where
  "residual targets ln_mean_cond = map (\<lambda>(t, l). t - l) (zip targets ln_mean_cond)"

definition conditional_mean ::
  "real list \<Rightarrow> mat \<Rightarrow> mat \<Rightarrow> real list \<Rightarrow> real list" where
  "conditional_mean ln_mean_free c_free_cond c_inv resid =
     map (\<lambda>(l, d). l + d)
       (zip ln_mean_free (np_ravel (mat_prod (mat_prod c_free_cond c_inv) (asmatrix_T resid))))"

text \<open>
  The conditional standard deviation at the free periods: the square roots of the
  diagonal of the Schur complement, the free-free block minus the free-to-conditioning
  block times the inverse of the conditioning block times the conditioning-to-free block.
\<close>

definition schur_complement :: "mat \<Rightarrow> mat \<Rightarrow> mat \<Rightarrow> mat \<Rightarrow> mat" where
  "schur_complement c_free_free c_free_cond c_inv c_cond_free =
     mat_minus c_free_free (mat_prod (mat_prod c_free_cond c_inv) c_cond_free)"

definition conditional_std :: "mat \<Rightarrow> mat \<Rightarrow> mat \<Rightarrow> mat \<Rightarrow> real list" where
  "conditional_std c_free_free c_free_cond c_inv c_cond_free =
     map sqrt (np_diagonal (schur_complement c_free_free c_free_cond c_inv c_cond_free))"

section \<open>Auxiliary functions of the proofs\<close>

text \<open>
  The entries of \<open>xs\<close> that a boolean array selects (what \<open>bool_index\<close> returns
  when the lengths agree), and the inverse of the grouping: \<open>unsplit m as bs\<close> puts
  the entries of \<open>as\<close> at the positions where \<open>m\<close> holds and the entries of
  \<open>bs\<close> at the others.
\<close>

definition select :: "'a list \<Rightarrow> bool list \<Rightarrow> 'a list" where
  "select xs m = map fst (filter snd (zip xs m))"

fun unsplit :: "bool list \<Rightarrow> 'a list \<Rightarrow> 'a list \<Rightarrow> 'a list" where
  "unsplit (True # m) (a # as) bs = a # unsplit m as bs"
| "unsplit (False # m) as (b # bs) = b # unsplit m as bs"
| "unsplit _ _ _ = []"

section \<open>Free and conditioning periods\<close>

text \<open>
  The entry \<open>i\<close> of the masked array \<open>ln_psas_cond\<close> is a conditioning period when it
  is not masked (its stored value is the target), and a free period when it is masked.
  \<open>free_part xs c\<close> are the entries of an array \<open>xs\<close> at the free periods,
  \<open>cond_part xs c\<close> those at the conditioning periods, both in the order of the input.
\<close>

definition free_part :: "'a list \<Rightarrow> masked_array \<Rightarrow> 'a list" where
  "free_part xs c = map (\<lambda>i. xs ! i) (filter (\<lambda>i. snd (c ! i)) [0..<length c])"

definition cond_part :: "'a list \<Rightarrow> masked_array \<Rightarrow> 'a list" where
  "cond_part xs c = map (\<lambda>i. xs ! i) (filter (\<lambda>i. \<not> snd (c ! i)) [0..<length c])"

section \<open>A correlation function and an inverse to evaluate with\<close>

text \<open>
  A correlation coefficient for concrete inputs: one for equal periods and one half
  otherwise.
\<close>

definition example_correl :: "real \<Rightarrow> real \<Rightarrow> real" where
  "example_correl p q = (if p = q then 1 else 1 / 2)"

text \<open>
  \<^verbatim>\<open>np.linalg.inv\<close> in exact arithmetic, by Gauss-Jordan elimination on the rows
  extended by the identity matrix: LinAlgError for a matrix that is not square and for
  a singular one, where a column has no pivot.
\<close>

definition identity_rows :: "nat \<Rightarrow> real list list" where
  "identity_rows n = map (\<lambda>i. map (\<lambda>j. if i = j then 1 else 0) [0..<n]) [0..<n]"

definition find_pivot :: "nat \<Rightarrow> real list list \<Rightarrow> nat option" where
  "find_pivot k rs =
     (case filter (\<lambda>i. rs ! i ! k \<noteq> 0) [k..<length rs] of [] \<Rightarrow> None | p # _ \<Rightarrow> Some p)"

definition eliminate :: "nat \<Rightarrow> nat \<Rightarrow> real list list \<Rightarrow> real list list" where
  "eliminate k p rs =
     (let swapped = rs[k := rs ! p, p := rs ! k];
          pivot_row = map (\<lambda>x. x / (swapped ! k ! k)) (swapped ! k)
      in map (\<lambda>i. if i = k then pivot_row
                    else map (\<lambda>(x, y). y - (swapped ! i ! k) * x) (zip pivot_row (swapped ! i)))
           [0..<length swapped])"

fun gauss_jordan :: "nat \<Rightarrow> nat \<Rightarrow> real list list \<Rightarrow> real list list option" where
  "gauss_jordan 0 k rs = Some rs"
| "gauss_jordan (Suc todo) k rs =
     (case find_pivot k rs of
        None \<Rightarrow> None
      | Some p \<Rightarrow> gauss_jordan todo (Suc k) (eliminate k p rs))"

definition gauss_inv :: "mat \<Rightarrow> error + mat" where
  "gauss_inv M =
     (if nrows M \<noteq> ncols M then Inl LinAlgError
      else case gauss_jordan (nrows M) 0
                  (map (\<lambda>(r, e). r @ e) (zip (rows M) (identity_rows (nrows M)))) of
             None \<Rightarrow> Inl LinAlgError
           | Some rs \<Rightarrow> Inr (Mat (nrows M) (nrows M) (map (drop (nrows M)) rs)))"

section \<open>The parameters of the Idriss (2014) model\<close>

text \<open>
  \<^verbatim>\<open>Idriss2014.PARAMS\<close> of \<^verbatim>\<open>idriss_2014.py\<close>: a numeric parameter has a name, a
  flag that it is required, and an optional lower and upper bound; a categorical
  parameter has a name, the flag, its options and a default.
\<close>

datatype parameter =
  NumericParameter string bool "real option" "real option"
| CategoricalParameter string bool "string list" string

datatype param_value = Num real | Str string

definition PARAMS :: "parameter list" where
  "PARAMS =
     [NumericParameter ''dist_rup'' True None (Some 150),
      NumericParameter ''mag'' True (Some 5) None,
      NumericParameter ''v_s30'' True (Some 450) (Some 1200),
      CategoricalParameter ''mechanism'' True [''SS'', ''RS''] ''SS'']"

text \<open>
  The mechanism flag of \<^verbatim>\<open>_calc_ln_resp\<close>: one for \<^verbatim>\<open>RS\<close> and zero for every other
  value.
\<close>

definition flag_mech :: "string \<Rightarrow> real" where
  "flag_mech mechanism = (if mechanism = ''RS'' then 1 else 0)"

text \<open>
  Modelled from the spec: the validation of the parameters is done by the base class
  \<^verbatim>\<open>model.Model\<close>, which is not among the sources. The spec says that the parameters
  are validated against the per-parameter numeric ranges and categorical domains before
  evaluation, and that an out-of-range value fails with a validation error naming the
  offending parameter. A parameter that is required and missing, or of the wrong kind,
  is taken to fail in the same way; a missing categorical parameter that is not
  required takes its default.
\<close>

datatype validation_error = ValidationError string

fun check_param :: "parameter \<Rightarrow> param_value option \<Rightarrow> validation_error + param_value option" where
  "check_param (NumericParameter name required lower upper) (Some (Num x)) =
     (if (case lower of None \<Rightarrow> False | Some l \<Rightarrow> x < l)
         \<or> (case upper of None \<Rightarrow> False | Some u \<Rightarrow> u < x)
      then Inl (ValidationError name) else Inr (Some (Num x)))"
| "check_param (NumericParameter name required lower upper) (Some (Str s)) =
     Inl (ValidationError name)"
| "check_param (NumericParameter name required lower upper) None =
     (if required then Inl (ValidationError name) else Inr None)"
| "check_param (CategoricalParameter name required options dflt) (Some (Str s)) =
     (if s \<in> set options then Inr (Some (Str s)) else Inl (ValidationError name))"
| "check_param (CategoricalParameter name required options dflt) (Some (Num x)) =
     Inl (ValidationError name)"
| "check_param (CategoricalParameter name required options dflt) None =
     (if required then Inl (ValidationError name) else Inr (Some (Str dflt)))"

fun param_name :: "parameter \<Rightarrow> string" where
  "param_name (NumericParameter name required lower upper) = name"
| "param_name (CategoricalParameter name required options dflt) = name"

fun check_inputs ::
  "parameter list \<Rightarrow> (string \<times> param_value) list \<Rightarrow>
   validation_error + (string \<times> param_value option) list" where
  "check_inputs [] kwds = Inr []"
| "check_inputs (p # ps) kwds =
     (case check_param p (map_of kwds (param_name p)) of
        Inl e \<Rightarrow> Inl e
      | Inr v \<Rightarrow>
          (case check_inputs ps kwds of
             Inl e \<Rightarrow> Inl e
           | Inr vs \<Rightarrow> Inr ((param_name p, v) # vs)))"

section \<open>Basic facts\<close>

lemma bindE_Inr [simp]: "bindE (Inr x) f = f x"
  by (simp add: bindE_def)

lemma bindE_Inl [simp]: "bindE (Inl e) f = Inl e"
  by (simp add: bindE_def)

lemma bindE_eq_Inr: "bindE r f = Inr y \<longleftrightarrow> (\<exists>x. r = Inr x \<and> f x = Inr y)"
  by (cases r) simp_all

lemma np_diff_Cons2: "np_diff (x # y # ys) = (y - x) # np_diff (y # ys)"
  by (simp add: np_diff_def)

lemma increasing_iff: "list_all (\<lambda>d. d > 0) (np_diff ps) \<longleftrightarrow> sorted_wrt (<) ps"
proof (induction ps rule: induct_list012)
  case 1
  show ?case by (simp add: np_diff_def)
next
  case (2 x)
  show ?case by (simp add: np_diff_def)
next
  case (3 x y zs)
  have "sorted_wrt (<) (x # y # zs) \<longleftrightarrow> x < y \<and> sorted_wrt (<) (y # zs)"
    by auto
  with 3 show ?case by (simp only: np_diff_Cons2 list.pred_inject) auto
qed

section \<open>Matrices\<close>

lemma nrows_mk_mat [simp]: "nrows (mk_mat r c f) = r"
  by (simp add: mk_mat_def)

lemma ncols_mk_mat [simp]: "ncols (mk_mat r c f) = c"
  by (simp add: mk_mat_def)

lemma entry_mk_mat [simp]: "i < r \<Longrightarrow> j < c \<Longrightarrow> entry (mk_mat r c f) i j = f i j"
  by (simp add: mk_mat_def entry_def)

lemma mk_mat_cong:
  "(\<And>i j. i < r \<Longrightarrow> j < c \<Longrightarrow> f i j = g i j) \<Longrightarrow> mk_mat r c f = mk_mat r c g"
  by (simp add: mk_mat_def)

lemma mat_prod_mk_mat:
  "mat_prod (mk_mat r c f) (mk_mat c d g)
   = mk_mat r d (\<lambda>i j. sum_list (map (\<lambda>k. f i k * g k j) [0..<c]))"
proof -
  have "\<And>i j. i < r \<Longrightarrow> j < d \<Longrightarrow>
      sum_list (map (\<lambda>k. entry (mk_mat r c f) i k * entry (mk_mat c d g) k j) [0..<c])
      = sum_list (map (\<lambda>k. f i k * g k j) [0..<c])"
    by (rule arg_cong [where f = sum_list], rule map_cong [OF refl]) simp
  then show ?thesis
    unfolding mat_prod_def by (simp only: nrows_mk_mat ncols_mk_mat) (rule mk_mat_cong)
qed

lemma transpose_mk_mat: "transpose_mat (mk_mat r c f) = mk_mat c r (\<lambda>i j. f j i)"
  unfolding transpose_mat_def
  by (simp only: nrows_mk_mat ncols_mk_mat) (rule mk_mat_cong, simp)

lemma sum_list_if_eq:
  assumes "j < n"
  shows "sum_list (map (\<lambda>k. if k = j then h k else 0) [0..<n]) = (h j :: real)"
proof -
  have "sum_list (map (\<lambda>k. if k = j then h k else 0) [0..<n])
        = (\<Sum>k\<in>{0..<n}. if k = j then h k else 0)"
    by (simp only: interv_sum_list_conv_sum_set_nat set_upt)
  also have "\<dots> = h j" using assms by (subst sum.delta) auto
  finally show ?thesis .
qed

lemma map_conv_nth: "map f xs = map (\<lambda>i. f (xs ! i)) [0..<length xs]"
  by (rule nth_equalityI) simp_all

lemma vstack_correl:
  assumes "pg \<noteq> []"
  shows "np_vstack (map (\<lambda>pc. calc_correl correl pg pc) pg)
         = Inr (mk_mat (length pg) (length pg) (\<lambda>j i. correl (pg ! i) (pg ! j)))"
proof -
  obtain p ps where pg: "pg = p # ps" using assms by (cases pg) auto
  have all: "list_all (\<lambda>q. length q = length (calc_correl correl pg p)) (map (\<lambda>pc. calc_correl correl pg pc) pg)"
    by (simp add: list_all_iff calc_correl_def)
  have rows_eq: "map (\<lambda>pc. calc_correl correl pg pc) pg
      = map (\<lambda>j. map (\<lambda>i. correl (pg ! i) (pg ! j)) [0..<length pg]) [0..<length pg]"
    unfolding calc_correl_def
    by (subst map_conv_nth, rule map_cong [OF refl], subst map_conv_nth, rule refl)
  have "np_vstack (map (\<lambda>pc. calc_correl correl pg pc) pg)
        = Inr (Mat (length pg) (length (calc_correl correl pg p)) (map (\<lambda>pc. calc_correl correl pg pc) pg))"
    using all unfolding np_vstack_def by (simp add: pg)
  also have "length (calc_correl correl pg p) = length pg" by (simp add: calc_correl_def)
  finally show ?thesis by (simp add: mk_mat_def rows_eq)
qed

lemma covariance_eq:
  assumes "pg \<noteq> []" "length sg = length pg"
  shows "covariance correl pg sg = Inr (cov_block correl pg sg pg sg)"
proof -
  let ?N = "length pg"
  have e1: "(\<lambda>k. (if i = k then sg ! i else 0) * correl (pg ! k) (pg ! j))
        = (\<lambda>k. if k = i then sg ! i * correl (pg ! i) (pg ! j) else 0)" for i j
    by (rule ext) simp
  have e2: "(\<lambda>k. sg ! i * correl (pg ! i) (pg ! k) * (if k = j then sg ! k else 0))
        = (\<lambda>k. if k = j then sg ! i * sg ! j * correl (pg ! i) (pg ! j) else 0)" for i j
    by (rule ext) simp
  have 1: "matmul (np_diag sg) (transpose_mat (mk_mat ?N ?N (\<lambda>j i. correl (pg ! i) (pg ! j))))
      = Inr (mk_mat ?N ?N (\<lambda>i j. sg ! i * correl (pg ! i) (pg ! j)))"
    using assms(2)
    by (simp add: matmul_def np_diag_def transpose_mk_mat mat_prod_mk_mat e1)
       (rule mk_mat_cong, simp add: sum_list_if_eq)
  have 2: "matmul (mk_mat ?N ?N (\<lambda>i j. sg ! i * correl (pg ! i) (pg ! j))) (np_diag sg)
      = Inr (cov_block correl pg sg pg sg)"
    using assms(2)
    by (simp add: matmul_def np_diag_def mat_prod_mk_mat cov_block_def e2)
       (rule mk_mat_cong, simp add: sum_list_if_eq)
  show ?thesis
    unfolding covariance_def Let_def by (simp add: vstack_correl [OF assms(1)] 1 2)
qed

section \<open>Selecting by a mask and grouping\<close>

lemma select_Nil [simp]: "select [] m = []" "select xs [] = []"
  by (simp_all add: select_def)

lemma select_Cons [simp]:
  "select (x # xs) (b # m) = (if b then x # select xs m else select xs m)"
  by (simp add: select_def)

lemma bool_index_eq: "length m = length xs \<Longrightarrow> bool_index xs m = Inr (select xs m)"
  by (simp add: bool_index_def select_def)

lemma bool_index_Inr: "bool_index xs m = Inr ys \<longleftrightarrow> length m = length xs \<and> ys = select xs m"
  by (auto simp: bool_index_def select_def)

lemma length_select:
  "length m = length xs \<Longrightarrow> length (select xs m) = length (filter (\<lambda>b. b) m)"
  by (induction xs m rule: list_induct2') auto

lemma length_select_Not:
  "length m = length xs \<Longrightarrow> length (select xs (map Not m)) = length (filter (\<lambda>b. \<not> b) m)"
  by (induction xs m rule: list_induct2') auto

lemma length_select_sum:
  "length m = length xs \<Longrightarrow> length (select xs m) + length (select xs (map Not m)) = length xs"
  by (induction xs m rule: list_induct2') auto

lemma select_zip:
  "length xs = length ys \<Longrightarrow> length ys = length m \<Longrightarrow>
   select (zip xs ys) m = zip (select xs m) (select ys m)"
  by (induction xs ys m rule: list_induct3) auto

lemma select_map: "select (map f xs) m = map f (select xs m)"
  by (induction xs m rule: list_induct2') auto

lemma mset_select:
  "length m = length xs \<Longrightarrow> mset (select xs m) + mset (select xs (map Not m)) = mset xs"
  by (induction xs m rule: list_induct2') auto

lemma select_nth_eq_aux:
  "length xs = length ys \<Longrightarrow> length ys = length m \<Longrightarrow>
   select xs m = select ys m \<longrightarrow> (\<forall>i<length m. m ! i \<longrightarrow> xs ! i = ys ! i)"
proof (induction xs ys m rule: list_induct3)
  case Nil
  then show ?case by simp
next
  case (Cons x xs y ys b m)
  show ?case
  proof (intro impI allI)
    fix i
    assume eq: "select (x # xs) (b # m) = select (y # ys) (b # m)"
      and i: "i < length (b # m)" and bi: "(b # m) ! i"
    show "(x # xs) ! i = (y # ys) ! i"
    proof (cases i)
      case 0
      with eq bi show ?thesis by simp
    next
      case (Suc k)
      from eq have "select xs m = select ys m" by (simp split: if_splits)
      with Cons.IH i bi Suc show ?thesis by simp
    qed
  qed
qed

lemma select_nth_eq:
  "length xs = length m \<Longrightarrow> length ys = length m \<Longrightarrow> select xs m = select ys m \<Longrightarrow>
   i < length m \<Longrightarrow> m ! i \<Longrightarrow> xs ! i = ys ! i"
  using select_nth_eq_aux [of xs ys m] by simp

lemma no_flags_Nil: "filter (\<lambda>b. b) m = [] \<Longrightarrow> filter (\<lambda>b. \<not> b) m = [] \<Longrightarrow> m = []"
  by (cases m) (auto split: if_splits)

lemma unsplit_select:
  "length as = length (filter (\<lambda>b. b) m) \<Longrightarrow> length bs = length (filter (\<lambda>b. \<not> b) m) \<Longrightarrow>
   length (unsplit m as bs) = length m \<and> select (unsplit m as bs) m = as \<and>
   select (unsplit m as bs) (map Not m) = bs"
  by (induction m as bs rule: unsplit.induct) (auto dest: no_flags_Nil)

subsection \<open>Restoring the original order\<close>

lemma argsort_props:
  "mset (np_argsort xs) = mset [0..<length xs]"
  "sorted (map (\<lambda>i. xs ! i) (np_argsort xs))"
  by (simp_all add: np_argsort_def)

lemma sorted_same_mset: "sorted xs \<Longrightarrow> sorted ys \<Longrightarrow> mset xs = mset (ys :: real list) \<Longrightarrow> xs = ys"
  using properties_for_sort by metis

lemma restore:
  fixes periods :: "real list" and v :: "'a list"
  assumes inc: "sorted_wrt (<) periods"
    and lm: "length m = length periods" and lv: "length v = length periods"
  defines "pg \<equiv> select periods m @ select periods (map Not m)"
  defines "g \<equiv> select v m @ select v (map Not m)"
  shows "map (\<lambda>i. g ! i) (np_argsort pg) = v"
proof -
  let ?idx = "np_argsort pg"
  have lpg: "length pg = length periods"
    using length_select_sum [OF lm] by (simp add: pg_def)
  have lg: "length g = length periods"
    using length_select_sum [of m v] lm lv by (simp add: g_def)
  have mpg: "mset pg = mset periods"
    using mset_select [OF lm] by (simp add: pg_def)
  have sd: "sorted periods" "distinct periods"
    using inc by (simp_all add: strict_sorted_iff)
  have midx: "mset ?idx = mset [0..<length pg]" by (rule argsort_props)
  have lidx: "length ?idx = length periods"
    using mset_eq_length [OF midx] lpg by simp
  have sidx: "set ?idx = {0..<length pg}"
    using mset_eq_setD [OF midx] by simp
  have "mset (map (\<lambda>i. pg ! i) ?idx) = mset (map (\<lambda>i. pg ! i) [0..<length pg])"
    using midx by (metis mset_map)
  then have "mset (map (\<lambda>i. pg ! i) ?idx) = mset periods"
    by (simp add: map_nth mpg)
  then have key: "map (\<lambda>i. pg ! i) ?idx = periods"
    using sorted_same_mset [OF argsort_props(2) sd(1)] by blast
  have zz: "zip pg g = select (zip periods v) m @ select (zip periods v) (map Not m)"
    using lm lv length_select [of m periods] length_select [of m v]
    by (simp add: pg_def g_def select_zip)
  have szz: "set (zip pg g) = set (zip periods v)"
    using mset_select [of m "zip periods v"] lm lv
    by (metis zz length_zip min.idem mset_append set_mset_mset)
  show ?thesis
  proof (rule nth_equalityI)
    show "length (map (\<lambda>i. g ! i) ?idx) = length v" using lidx lv by simp
  next
    fix k assume "k < length (map (\<lambda>i. g ! i) ?idx)"
    then have k: "k < length periods" using lidx by simp
    let ?j = "?idx ! k"
    have j: "?j < length pg" using sidx k lidx by (metis atLeastLessThan_iff nth_mem)
    have pj: "pg ! ?j = periods ! k"
      using key k lidx by (metis nth_map)
    have "(pg ! ?j, g ! ?j) \<in> set (zip pg g)"
      using j lpg lg by (metis in_set_zip fst_conv snd_conv)
    then have "(pg ! ?j, g ! ?j) \<in> set (zip periods v)" using szz by simp
    then obtain k' where k': "k' < length periods" "periods ! k' = pg ! ?j" "v ! k' = g ! ?j"
      using lv by (auto simp: in_set_zip)
    have "k' = k" using k k' pj sd(2) by (simp add: nth_eq_iff_index_eq)
    then show "map (\<lambda>i. g ! i) ?idx ! k = v ! k"
      using k k' lidx by simp
  qed
qed

section \<open>What the function computes\<close>

lemma slice_mk_mat:
  "r0 \<le> r1 \<Longrightarrow> r1 \<le> R \<Longrightarrow> c0 \<le> c1 \<Longrightarrow> c1 \<le> C \<Longrightarrow>
   slice (mk_mat R C f) r0 r1 c0 c1 = mk_mat (r1 - r0) (c1 - c0) (\<lambda>i j. f (r0 + i) (c0 + j))"
  unfolding slice_def
  by (simp only: nrows_mk_mat ncols_mk_mat min_absorb1 le_trans [of r0 r1 R] le_trans [of c0 c1 C])
     (rule mk_mat_cong, simp)

lemma slice_cov_block:
  fixes correl :: "real \<Rightarrow> real \<Rightarrow> real"
  assumes "length sa = length pa" "length sb = length pb"
  defines "M \<equiv> cov_block correl (pa @ pb) (sa @ sb) (pa @ pb) (sa @ sb)"
  defines "n \<equiv> length pa"
  shows "slice M 0 n 0 n = cov_block correl pa sa pa sa"
    and "slice M n (nrows M) n (ncols M) = cov_block correl pb sb pb sb"
    and "slice M 0 n n (ncols M) = cov_block correl pa sa pb sb"
    and "slice M n (nrows M) 0 n = cov_block correl pb sb pa sa"
  using assms(1,2) unfolding M_def n_def cov_block_def
  by (simp_all add: slice_mk_mat) (rule mk_mat_cong, simp add: nth_append)+

lemma np_ravel_column: "np_ravel (mk_mat r 1 f) = map (\<lambda>i. f i 0) [0..<r]"
  by (simp add: np_ravel_def mk_mat_def concat_map_singleton)

lemma length_np_ravel: "length (np_ravel (mk_mat r c f)) = r * c"
  by (induction r) (simp_all add: np_ravel_def mk_mat_def)

lemma length_np_diagonal: "length (np_diagonal M) = min (nrows M) (ncols M)"
  by (simp add: np_diagonal_def)

lemma argsort_set: "set (np_argsort xs) = {0..<length xs}"
  by (simp add: np_argsort_def)

lemma take_indices_argsort:
  "length g = length pg \<Longrightarrow> take_indices g (np_argsort pg) = Inr (map (\<lambda>i. g ! i) (np_argsort pg))"
  by (simp add: take_indices_def list_all_iff argsort_set)


lemma grouped_eq:
  "length m = length xs \<Longrightarrow> grouped xs m = Inr (select xs m @ select xs (map Not m))"
  by (simp add: grouped_def bool_index_eq invert_mask_def np_r_def)

lemma grouped_Inr:
  "grouped xs m = Inr g \<Longrightarrow> length m = length xs"
  by (auto simp: grouped_def bindE_eq_Inr bool_index_Inr)

lemma count_masked_eq: "count_masked c = length (select xs (ma_mask c))" if "length xs = length c"
  using that by (simp add: count_masked_def length_select ma_mask_def)

lemma calc_cases:
  fixes correl :: "real \<Rightarrow> real \<Rightarrow> real"
  assumes inc: "sorted_wrt (<) periods" and ne: "periods \<noteq> []"
    and lc: "length ln_psas_cond = length periods"
    and ls: "length ln_stds = length periods"
    and lp: "length ln_psas = length periods"
  defines "msk \<equiv> ma_mask ln_psas_cond"
  defines "pf \<equiv> select periods msk" and "pc \<equiv> select periods (map Not msk)"
  defines "sf \<equiv> select ln_stds msk" and "sc \<equiv> select ln_stds (map Not msk)"
  defines "lf \<equiv> select ln_psas msk" and "lcn \<equiv> select ln_psas (map Not msk)"
  defines "tc \<equiv> select (ma_data ln_psas_cond) (map Not msk)"
  shows "calc_cond_mean_spectrum_vector correl linalg_inv periods ln_psas ln_stds ln_psas_cond =
    bindE (linalg_inv (cov_block correl pc sc pc sc)) (\<lambda>ci.
      if nrows ci = length pc \<and> ncols ci = length pc
      then Inr (unsplit msk
                  (conditional_mean lf (cov_block correl pf sf pc sc) ci (residual tc lcn)) tc,
                unsplit msk
                  (conditional_std (cov_block correl pf sf pf sf) (cov_block correl pf sf pc sc)
                     ci (cov_block correl pc sc pf sf))
                  (np_zeros (length pc)))
      else Inl ValueError)"
proof -
  let ?pg = "pf @ pc" and ?sg = "sf @ sc"
  have lm: "length msk = length periods" by (simp add: msk_def ma_mask_def lc)
  have ld: "length (ma_data ln_psas_cond) = length periods" by (simp add: ma_data_def lc)
  have lens: "length sf = length pf" "length sc = length pc" "length lf = length pf"
    "length lcn = length pc" "length tc = length pc"
    using lm ls lp ld
    by (simp_all add: pf_def pc_def sf_def sc_def lf_def lcn_def tc_def length_select length_select_Not)
  have lpg: "length ?pg = length periods"
    using length_select_sum [of msk periods] lm by (simp add: pf_def pc_def)
  have pgne: "?pg \<noteq> []" using lpg ne by (metis length_0_conv)
  have inc': "list_all (\<lambda>d. d > 0) (np_diff periods)" using inc by (simp add: increasing_iff)
  have g1: "grouped periods msk = Inr ?pg"
    using lm by (simp add: grouped_eq pf_def pc_def)
  have g2: "grouped ln_stds msk = Inr ?sg"
    using lm ls by (simp add: grouped_eq sf_def sc_def)
  define M where "M = cov_block correl ?pg ?sg ?pg ?sg"
  have cv: "covariance correl ?pg ?sg = Inr M"
    unfolding M_def by (rule covariance_eq [OF pgne]) (simp add: lens)
  have n: "count_masked ln_psas_cond = length pf"
    using count_masked_eq [of periods ln_psas_cond] lc by (simp add: pf_def msk_def)
  have cnt: "ma_count ln_psas_cond = length pc"
    using lm by (simp add: ma_count_def pc_def length_select_Not msk_def [symmetric])
  note sl = slice_cov_block [OF lens(1) lens(2), of correl, folded M_def]
  have b1: "bool_index (ma_data ln_psas_cond) (invert_mask msk) = Inr tc"
    using lm ld by (simp add: bool_index_eq invert_mask_def tc_def)
  have b2: "bool_index ln_psas (invert_mask msk) = Inr lcn"
    using lm lp by (simp add: bool_index_eq invert_mask_def lcn_def)
  have b3: "bool_index ln_psas msk = Inr lf"
    using lm lp by (simp add: bool_index_eq lf_def)
  have vs: "vec_sub tc lcn = Inr (residual tc lcn)"
    by (simp add: vec_sub_def residual_def lens)
  show ?thesis
  proof (cases "linalg_inv (cov_block correl pc sc pc sc)")
    case (Inl e)
    then show ?thesis
      unfolding calc_cond_mean_spectrum_vector_def Let_def msk_def [symmetric]
      by (simp add: inc' g1 g2 cv n sl)
  next
    case (Inr ci)
    show ?thesis
    proof (cases "nrows ci = length pc \<and> ncols ci = length pc")
      case True
      let ?C12 = "cov_block correl pf sf pc sc"
      let ?m1 = "mat_prod ?C12 ci"
      have m1: "matmul ?C12 ci = Inr ?m1"
        using True by (simp add: matmul_def cov_block_def)
      have m2: "matmul ?m1 (asmatrix_T (residual tc lcn))
                = Inr (mat_prod ?m1 (asmatrix_T (residual tc lcn)))"
        using True by (simp add: matmul_def mat_prod_def asmatrix_T_def residual_def lens)
      have lrav: "length (np_ravel (mat_prod ?m1 (asmatrix_T (residual tc lcn)))) = length pf"
        by (simp add: mat_prod_def asmatrix_T_def length_np_ravel cov_block_def)
      have va: "vec_add lf (np_ravel (mat_prod ?m1 (asmatrix_T (residual tc lcn))))
                = Inr (conditional_mean lf ?C12 ci (residual tc lcn))"
        using lrav by (simp add: vec_add_def conditional_mean_def lens)
      have m3: "matmul ?m1 (cov_block correl pc sc pf sf)
                = Inr (mat_prod ?m1 (cov_block correl pc sc pf sf))"
        using True by (simp add: matmul_def mat_prod_def cov_block_def)
      have m4: "mat_sub (cov_block correl pf sf pf sf) (mat_prod ?m1 (cov_block correl pc sc pf sf))
                = Inr (schur_complement (cov_block correl pf sf pf sf) ?C12 ci
                         (cov_block correl pc sc pf sf))"
        by (simp add: mat_sub_def schur_complement_def mat_prod_def cov_block_def)
      let ?a = "conditional_mean lf ?C12 ci (residual tc lcn)"
      let ?s = "conditional_std (cov_block correl pf sf pf sf) ?C12 ci (cov_block correl pc sc pf sf)"
      have la: "length ?a = length pf"
        using lrav by (simp add: conditional_mean_def lens)
      have lsd: "length ?s = length pf"
        by (simp add: conditional_std_def length_np_diagonal schur_complement_def mat_minus_def
            cov_block_def)
      have cf: "length pf = length (filter (\<lambda>b. b) msk)"
        "length pc = length (filter (\<lambda>b. \<not> b) msk)"
        using lm by (simp_all add: pf_def pc_def length_select length_select_Not o_def)
      let ?vm = "unsplit msk ?a tc" and ?vs = "unsplit msk ?s (np_zeros (length pc))"
      have um: "length ?vm = length msk" "select ?vm msk = ?a" "select ?vm (map Not msk) = tc"
        using unsplit_select [of ?a msk tc] la lens cf by simp_all
      have us: "length ?vs = length msk" "select ?vs msk = ?s"
        "select ?vs (map Not msk) = np_zeros (length pc)"
        using unsplit_select [of ?s msk "np_zeros (length pc)"] lsd cf by (simp_all add: np_zeros_def)
      have r1: "map (\<lambda>i. (?a @ tc) ! i) (np_argsort ?pg) = ?vm"
        using restore [OF inc lm, of ?vm] um lm by (simp add: pf_def pc_def)
      have r2: "map (\<lambda>i. (?s @ np_zeros (length pc)) ! i) (np_argsort ?pg) = ?vs"
        using restore [OF inc lm, of ?vs] us lm by (simp add: pf_def pc_def)
      have t1: "take_indices (np_r ?a tc) (np_argsort ?pg) = Inr ?vm"
        using r1 la lens by (simp add: take_indices_argsort np_r_def)
      have t2: "take_indices (np_r (np_sqrt (np_diagonal (schur_complement (cov_block correl pf sf pf sf) ?C12 ci
                         (cov_block correl pc sc pf sf)))) (np_zeros (length pc))) (np_argsort ?pg) = Inr ?vs"
        using r2 lsd by (simp add: take_indices_argsort np_r_def np_sqrt_def conditional_std_def np_zeros_def)
      show ?thesis
        unfolding calc_cond_mean_spectrum_vector_def Let_def msk_def [symmetric]
        by (simp add: inc' g1 g2 cv n cnt sl Inr True b1 b2 b3 vs m1 m2 va m3 m4 t1 t2)
    next
      case False
      let ?C12 = "cov_block correl pf sf pc sc"
      have "matmul ?C12 ci = Inl ValueError \<or>
            (matmul ?C12 ci = Inr (mat_prod ?C12 ci) \<and>
             matmul (mat_prod ?C12 ci) (asmatrix_T (residual tc lcn)) = Inl ValueError)"
        using False by (auto simp: matmul_def cov_block_def mat_prod_def asmatrix_T_def residual_def lens)
      then show ?thesis
        unfolding calc_cond_mean_spectrum_vector_def Let_def msk_def [symmetric]
        by (auto simp add: inc' g1 g2 cv n cnt sl Inr False b1 b2 b3 vs)
    qed
  qed
qed

lemma covariance_Inr: "covariance correl pg sg = Inr M \<Longrightarrow> pg \<noteq> []"
  by (auto simp: covariance_def Let_def bindE_eq_Inr np_vstack_def)

lemma calc_Inr_valid:
  assumes "calc_cond_mean_spectrum_vector correl linalg_inv periods ln_psas ln_stds ln_psas_cond = Inr r"
  shows "sorted_wrt (<) periods \<and> periods \<noteq> [] \<and> length ln_psas_cond = length periods \<and>
         length ln_stds = length periods \<and> length ln_psas = length periods"
proof -
  let ?msk = "ma_mask ln_psas_cond"
  from assms have inc: "sorted_wrt (<) periods"
    by (auto simp: calc_cond_mean_spectrum_vector_def increasing_iff split: if_splits)
  from assms obtain pg sg M lcn where
    g1: "grouped periods ?msk = Inr pg" and g2: "grouped ln_stds ?msk = Inr sg"
    and cv: "covariance correl pg sg = Inr M"
    and b2: "bool_index ln_psas (invert_mask ?msk) = Inr lcn"
    unfolding calc_cond_mean_spectrum_vector_def Let_def
    by (simp add: bindE_eq_Inr split: if_splits) blast
  have lm: "length ?msk = length periods" using g1 by (rule grouped_Inr)
  have ls: "length ?msk = length ln_stds" using g2 by (rule grouped_Inr)
  have lp: "length ?msk = length ln_psas" using b2 by (simp add: bool_index_Inr invert_mask_def)
  have "pg \<noteq> []" using cv by (rule covariance_Inr)
  moreover have "pg = select periods ?msk @ select periods (map Not ?msk)"
    using g1 lm by (simp add: grouped_eq)
  ultimately have "periods \<noteq> []" by auto
  with inc lm ls lp show ?thesis by (simp add: ma_mask_def)
qed

subsection \<open>Free and conditioning parts by index\<close>

lemma upt_0_Suc: "[0..<Suc n] = 0 # map Suc [0..<n]"
  by (simp add: upt_conv_Cons map_Suc_upt del: upt_Suc)

lemma select_by_index:
  "length xs = length m \<Longrightarrow> select xs m = map (\<lambda>i. xs ! i) (filter (\<lambda>i. m ! i) [0..<length m])"
proof (induction xs m rule: list_induct2)
  case Nil
  show ?case by simp
next
  case (Cons x xs b m)
  have "filter (\<lambda>i. (b # m) ! i) [0..<length (b # m)]
        = (if b then [0] else []) @ map Suc (filter (\<lambda>i. m ! i) [0..<length m])"
    by (simp add: upt_0_Suc filter_map o_def del: upt_Suc)
  with Cons show ?case by (simp add: o_def)
qed

lemma free_part_select: "length xs = length c \<Longrightarrow> free_part xs c = select xs (ma_mask c)"
proof -
  assume l: "length xs = length c"
  have "filter (\<lambda>i. snd (c ! i)) [0..<length c] = filter (\<lambda>i. map snd c ! i) [0..<length c]"
    by (rule filter_cong) simp_all
  then show ?thesis using l by (simp add: free_part_def select_by_index ma_mask_def)
qed

lemma cond_part_select:
  "length xs = length c \<Longrightarrow> cond_part xs c = select xs (map Not (ma_mask c))"
proof -
  assume l: "length xs = length c"
  have "filter (\<lambda>i. \<not> snd (c ! i)) [0..<length c]
        = filter (\<lambda>i. map Not (map snd c) ! i) [0..<length c]"
    by (rule filter_cong) simp_all
  then show ?thesis using l by (simp add: cond_part_def select_by_index ma_mask_def)
qed

subsection \<open>The result of a successful call\<close>

lemma calc_Inr_D:
  fixes correl :: "real \<Rightarrow> real \<Rightarrow> real"
  assumes "calc_cond_mean_spectrum_vector correl linalg_inv periods ln_psas ln_stds c = Inr (m, s)"
  shows "\<exists>ci. linalg_inv (cov_block correl (cond_part periods c) (cond_part ln_stds c)
                          (cond_part periods c) (cond_part ln_stds c)) = Inr ci \<and>
          nrows ci = length (cond_part periods c) \<and> ncols ci = length (cond_part periods c) \<and>
          length m = length periods \<and> length s = length periods \<and>
          free_part m c =
            conditional_mean (free_part ln_psas c)
              (cov_block correl (free_part periods c) (free_part ln_stds c)
                 (cond_part periods c) (cond_part ln_stds c))
              ci (residual (cond_part (ma_data c) c) (cond_part ln_psas c)) \<and>
          cond_part m c = cond_part (ma_data c) c \<and>
          free_part s c =
            conditional_std
              (cov_block correl (free_part periods c) (free_part ln_stds c)
                 (free_part periods c) (free_part ln_stds c))
              (cov_block correl (free_part periods c) (free_part ln_stds c)
                 (cond_part periods c) (cond_part ln_stds c))
              ci
              (cov_block correl (cond_part periods c) (cond_part ln_stds c)
                 (free_part periods c) (free_part ln_stds c)) \<and>
          cond_part s c = np_zeros (length (cond_part periods c))"
proof -
  note v = calc_Inr_valid [OF assms]
  let ?msk = "ma_mask c"
  have lm: "length ?msk = length periods" using v by (simp add: ma_mask_def)
  have ld: "length (ma_data c) = length c" by (simp add: ma_data_def)
  have fp: "free_part periods c = select periods ?msk" "free_part ln_stds c = select ln_stds ?msk"
    "free_part ln_psas c = select ln_psas ?msk"
    using v by (simp_all add: free_part_select)
  have cp: "cond_part periods c = select periods (map Not ?msk)"
    "cond_part ln_stds c = select ln_stds (map Not ?msk)"
    "cond_part ln_psas c = select ln_psas (map Not ?msk)"
    "cond_part (ma_data c) c = select (ma_data c) (map Not ?msk)"
    using v ld by (simp_all add: cond_part_select)
  have cf: "length (select periods ?msk) = length (filter (\<lambda>b. b) ?msk)"
    "length (select periods (map Not ?msk)) = length (filter (\<lambda>b. \<not> b) ?msk)"
    using lm by (simp_all add: length_select length_select_Not o_def)
  have cc': "calc_cond_mean_spectrum_vector correl linalg_inv periods ln_psas ln_stds c =
    bindE (linalg_inv (cov_block correl (cond_part periods c) (cond_part ln_stds c)
                          (cond_part periods c) (cond_part ln_stds c))) (\<lambda>ci.
      if nrows ci = length (cond_part periods c) \<and> ncols ci = length (cond_part periods c)
      then Inr (unsplit ?msk
                  (conditional_mean (free_part ln_psas c)
                     (cov_block correl (free_part periods c) (free_part ln_stds c)
                        (cond_part periods c) (cond_part ln_stds c)) ci
                     (residual (cond_part (ma_data c) c) (cond_part ln_psas c)))
                  (cond_part (ma_data c) c),
                unsplit ?msk
                  (conditional_std
                     (cov_block correl (free_part periods c) (free_part ln_stds c)
                        (free_part periods c) (free_part ln_stds c))
                     (cov_block correl (free_part periods c) (free_part ln_stds c)
                        (cond_part periods c) (cond_part ln_stds c))
                     ci
                     (cov_block correl (cond_part periods c) (cond_part ln_stds c)
                        (free_part periods c) (free_part ln_stds c)))
                  (np_zeros (length (cond_part periods c))))
      else Inl ValueError)"
    unfolding fp cp using v by (intro calc_cases) simp_all
  let ?C = "cov_block correl (cond_part periods c) (cond_part ln_stds c)
                          (cond_part periods c) (cond_part ln_stds c)"
  let ?a = "conditional_mean (free_part ln_psas c)
                     (cov_block correl (free_part periods c) (free_part ln_stds c)
                        (cond_part periods c) (cond_part ln_stds c))"
  let ?r = "residual (cond_part (ma_data c) c) (cond_part ln_psas c)"
  let ?sd = "conditional_std
                     (cov_block correl (free_part periods c) (free_part ln_stds c)
                        (free_part periods c) (free_part ln_stds c))
                     (cov_block correl (free_part periods c) (free_part ln_stds c)
                        (cond_part periods c) (cond_part ln_stds c))"
  let ?C21 = "cov_block correl (cond_part periods c) (cond_part ln_stds c)
                        (free_part periods c) (free_part ln_stds c)"
  from assms cc' obtain ci where ci: "linalg_inv ?C = Inr ci"
    and sh: "nrows ci = length (cond_part periods c)" "ncols ci = length (cond_part periods c)"
    and m: "m = unsplit ?msk (?a ci ?r) (cond_part (ma_data c) c)"
    and s: "s = unsplit ?msk (?sd ci ?C21) (np_zeros (length (cond_part periods c)))"
    by (auto simp: bindE_eq_Inr split: if_splits)
  have lens: "length (free_part ln_psas c) = length (free_part periods c)"
    "length (cond_part (ma_data c) c) = length (cond_part periods c)"
    using v lm ld by (simp_all add: fp cp length_select length_select_Not ma_mask_def o_def)
  have la: "length (?a ci ?r) = length (filter (\<lambda>b. b) ?msk)"
    using sh lens cf
    by (simp add: conditional_mean_def mat_prod_def asmatrix_T_def length_np_ravel cov_block_def fp cp)
  have lt: "length (cond_part (ma_data c) c) = length (filter (\<lambda>b. \<not> b) ?msk)"
    using lens cf by (simp add: cp)
  have lsd: "length (?sd ci ?C21) = length (filter (\<lambda>b. b) ?msk)"
    using cf by (simp add: conditional_std_def length_np_diagonal schur_complement_def mat_minus_def
        cov_block_def fp)
  have lz: "length (np_zeros (length (cond_part periods c))) = length (filter (\<lambda>b. \<not> b) ?msk)"
    using cf by (simp add: np_zeros_def cp)
  note um = unsplit_select [OF la lt, folded m]
  note us = unsplit_select [OF lsd lz, folded s]
  have lmc: "length m = length c" "length s = length c"
    using um us by (simp_all add: ma_mask_def)
  have "free_part m c = ?a ci ?r" "cond_part m c = cond_part (ma_data c) c"
    "free_part s c = ?sd ci ?C21" "cond_part s c = np_zeros (length (cond_part periods c))"
    using um us lmc by (simp_all add: free_part_select cond_part_select)
  with ci sh lmc v show ?thesis by auto
qed

subsection \<open>Evaluation on concrete inputs\<close>

lemmas ev = calc_cond_mean_spectrum_vector_def grouped_def covariance_def bool_index_def invert_mask_def
  np_r_def np_diag_def np_diagonal_def np_vstack_def transpose_mat_def mat_prod_def matmul_def
  mat_minus_def mat_sub_def vec_add_def vec_sub_def slice_def asmatrix_T_def np_ravel_def np_sqrt_def
  np_zeros_def np_argsort_def take_indices_def calc_correl_def ma_mask_def ma_data_def count_masked_def
  ma_count_def np_diff_def mk_mat_def entry_def example_correl_def
  gauss_inv_def identity_rows_def find_pivot_def eliminate_def Let_def

lemma example_run:
  "calc_cond_mean_spectrum_vector example_correl gauss_inv [1, 2] [0, 0] [1, 1] [(2, False), (7, True)]
   = Inr ([2, 1], [0, sqrt (3 / 4)])"
  by (simp add: ev numeral_2_eq_2 upt_rec)

lemma example_run3:
  "calc_cond_mean_spectrum_vector example_correl gauss_inv [1, 2, 3] [1, 3, 5] [2, 3, 1]
     [(0, True), (4, False), (0, True)]
   = Inr ([4 / 3, 4, 31 / 6], [sqrt 3, 0, sqrt (3 / 4)])"
  by (simp add: ev numeral_2_eq_2 numeral_3_eq_3 upt_rec)

lemma part_nth:
  assumes "length xs = length c" "length ys = length c" "i < length c"
  shows "snd (c ! i) \<Longrightarrow> free_part xs c = free_part ys c \<Longrightarrow> xs ! i = ys ! i"
    and "\<not> snd (c ! i) \<Longrightarrow> cond_part xs c = cond_part ys c \<Longrightarrow> xs ! i = ys ! i"
  using assms select_nth_eq [of xs "ma_mask c" ys i] select_nth_eq [of xs "map Not (ma_mask c)" ys i]
  by (simp_all add: free_part_select cond_part_select ma_mask_def)

lemma cond_part_replicate:
  "cond_part (replicate (length c) x) c = replicate (length (cond_part ys c)) x"
proof -
  let ?L = "filter (\<lambda>i. \<not> snd (c ! i)) [0..<length c]"
  have "map (\<lambda>i. replicate (length c) x ! i) ?L = map (\<lambda>_. x) ?L"
    by (rule map_cong) auto
  then show ?thesis by (simp add: cond_part_def map_replicate_const)
qed

lemma length_cond_part: "length (cond_part xs c) = ma_count c"
proof -
  have "length (cond_part xs c) = length (cond_part c c)" by (simp add: cond_part_def)
  also have "\<dots> = length (select c (map Not (ma_mask c)))"
    by (simp only: cond_part_select [OF refl])
  also have "\<dots> = ma_count c"
    by (simp only: ma_count_def) (rule length_select_Not, simp add: ma_mask_def)
  finally show ?thesis .
qed

lemma length_free_part: "length (free_part xs c) = count_masked c"
proof -
  have "length (free_part xs c) = length (free_part c c)" by (simp add: free_part_def)
  also have "\<dots> = length (select c (ma_mask c))"
    by (simp only: free_part_select [OF refl])
  also have "\<dots> = count_masked c"
    by (simp only: count_masked_def) (rule length_select, simp add: ma_mask_def)
  finally show ?thesis .
qed

lemma example_block:
  "cov_block example_correl
     (cond_part [1, 2] [(2, False), (7, True)]) (cond_part [1, 1] [(2, False), (7, True)])
     (cond_part [1, 2] [(2, False), (7, True)]) (cond_part [1, 1] [(2, False), (7, True)])
   = Mat 1 1 [[1]]"
  by (simp add: cov_block_def cond_part_def mk_mat_def example_correl_def numeral_2_eq_2 upt_rec)

lemma gauss_inv_example:
  "gauss_inv (Mat 2 2 [[1, 1 / 2], [1 / 2, 1]]) = Inr (Mat 2 2 [[4 / 3, - 2 / 3], [- 2 / 3, 4 / 3]]) \<and>
   mat_prod (Mat 2 2 [[1, 1 / 2], [1 / 2, 1]]) (Mat 2 2 [[4 / 3, - 2 / 3], [- 2 / 3, 4 / 3]])
     = Mat 2 2 [[1, 0], [0, 1]] \<and>
   gauss_inv (Mat 2 2 [[1, 2], [2, 4]]) = Inl LinAlgError \<and>
   gauss_inv (Mat 0 0 []) = Inr (Mat 0 0 [])"
  by (simp add: gauss_inv_def identity_rows_def find_pivot_def eliminate_def mat_prod_def
      mk_mat_def entry_def numeral_2_eq_2 upt_rec)

lemma example_inverse: "gauss_inv (Mat 1 1 [[1]]) = Inr (Mat 1 1 [[1]])"
  by (simp add: gauss_inv_def identity_rows_def find_pivot_def eliminate_def)

subsection \<open>Masks without free or without conditioning periods\<close>

lemma no_free_cond_part:
  assumes "free_part ps c = []" "length x = length c"
  shows "cond_part x c = x"
proof -
  have "filter (\<lambda>i. snd (c ! i)) [0..<length c] = []"
    using assms(1) by (simp add: free_part_def)
  then have "\<forall>i\<in>set [0..<length c]. \<not> snd (c ! i)"
    by (simp add: filter_empty_conv)
  then have "filter (\<lambda>i. \<not> snd (c ! i)) [0..<length c] = [0..<length c]"
    by (simp only: filter_id_conv)
  then show ?thesis using assms(2) map_nth [of x] by (simp add: cond_part_def)
qed

lemma no_cond_free_part:
  assumes "cond_part ps c = []" "length x = length c"
  shows "free_part x c = x"
proof -
  have "filter (\<lambda>i. \<not> snd (c ! i)) [0..<length c] = []"
    using assms(1) by (simp add: cond_part_def)
  then have "\<forall>i\<in>set [0..<length c]. snd (c ! i)"
    by (simp add: filter_empty_conv)
  then have "filter (\<lambda>i. snd (c ! i)) [0..<length c] = [0..<length c]"
    by (simp only: filter_id_conv)
  then show ?thesis using assms(2) map_nth [of x] by (simp add: free_part_def)
qed

lemma calc_returns:
  fixes correl :: "real \<Rightarrow> real \<Rightarrow> real"
  assumes "sorted_wrt (<) periods" and "periods \<noteq> []"
    and "length c = length periods" and "length ln_stds = length periods"
    and "length ln_psas = length periods"
    and "linalg_inv (cov_block correl (cond_part periods c) (cond_part ln_stds c)
                       (cond_part periods c) (cond_part ln_stds c)) = Inr c_inv"
    and "nrows c_inv = length (cond_part periods c)" and "ncols c_inv = length (cond_part periods c)"
  shows "\<exists>m s. calc_cond_mean_spectrum_vector correl linalg_inv periods ln_psas ln_stds c = Inr (m, s)"
proof -
  have cp: "cond_part periods c = select periods (map Not (ma_mask c))"
    "cond_part ln_stds c = select ln_stds (map Not (ma_mask c))"
    using assms by (simp_all add: cond_part_select)
  show ?thesis
    using assms(6-8) unfolding cp by (simp add: calc_cases [OF assms(1-5)])
qed

lemma conditional_mean_no_cond:
  assumes "ncols c_inv = 0" "length lf = nrows C"
  shows "conditional_mean lf C c_inv r = lf"
proof -
  have "np_ravel (mat_prod (mat_prod C c_inv) (asmatrix_T r)) = map (\<lambda>i. 0) [0..<nrows C]"
    using assms(1) by (simp add: mat_prod_def asmatrix_T_def np_ravel_column [simplified])
  then show ?thesis
    using assms(2) by (simp add: conditional_mean_def) (rule nth_equalityI, simp_all)
qed

lemma conditional_std_no_cond:
  assumes "ncols c_inv = 0" "ncols C21 = ncols C11" "nrows C12 = nrows C11"
  shows "conditional_std C11 C12 c_inv C21 = np_sqrt (np_diagonal C11)"
  using assms
  by (simp add: conditional_std_def schur_complement_def mat_minus_def mat_prod_def np_diagonal_def
      np_sqrt_def)

lemma degenerate_mask_full:
  fixes correl :: "real \<Rightarrow> real \<Rightarrow> real"
  assumes "sorted_wrt (<) periods" and "periods \<noteq> []"
    and "length ln_psas_cond = length periods" and "length ln_stds = length periods"
    and "length ln_psas = length periods"
    and "free_part periods ln_psas_cond = [] \<or> cond_part periods ln_psas_cond = []"
    and "linalg_inv (cov_block correl
                       (cond_part periods ln_psas_cond) (cond_part ln_stds ln_psas_cond)
                       (cond_part periods ln_psas_cond) (cond_part ln_stds ln_psas_cond)) = Inr c_inv"
    and "nrows c_inv = length (cond_part periods ln_psas_cond)"
    and "ncols c_inv = length (cond_part periods ln_psas_cond)"
  shows "(free_part periods ln_psas_cond = [] \<and>
          calc_cond_mean_spectrum_vector correl linalg_inv periods ln_psas ln_stds ln_psas_cond
            = Inr (ma_data ln_psas_cond, np_zeros (length periods))) \<or>
         (cond_part periods ln_psas_cond = [] \<and>
          calc_cond_mean_spectrum_vector correl linalg_inv periods ln_psas ln_stds ln_psas_cond
            = Inr (ln_psas, np_sqrt (np_diagonal (cov_block correl periods ln_stds periods ln_stds))))"
proof -
  let ?c = ln_psas_cond
  have "\<exists>m s. calc_cond_mean_spectrum_vector correl linalg_inv periods ln_psas ln_stds ?c
                 = Inr (m, s)"
    by (rule calc_returns [where c_inv = c_inv]) (fact assms)+
  then obtain m s where
    r: "calc_cond_mean_spectrum_vector correl linalg_inv periods ln_psas ln_stds ?c = Inr (m, s)"
    by blast
  from calc_Inr_D [OF r] assms(7) have
    l: "length m = length periods" "length s = length periods"
    and fm: "free_part m ?c =
            conditional_mean (free_part ln_psas ?c)
              (cov_block correl (free_part periods ?c) (free_part ln_stds ?c)
                 (cond_part periods ?c) (cond_part ln_stds ?c))
              c_inv (residual (cond_part (ma_data ?c) ?c) (cond_part ln_psas ?c))"
    and cm: "cond_part m ?c = cond_part (ma_data ?c) ?c"
    and fs: "free_part s ?c =
            conditional_std
              (cov_block correl (free_part periods ?c) (free_part ln_stds ?c)
                 (free_part periods ?c) (free_part ln_stds ?c))
              (cov_block correl (free_part periods ?c) (free_part ln_stds ?c)
                 (cond_part periods ?c) (cond_part ln_stds ?c))
              c_inv
              (cov_block correl (cond_part periods ?c) (cond_part ln_stds ?c)
                 (free_part periods ?c) (free_part ln_stds ?c))"
    and cs: "cond_part s ?c = np_zeros (length (cond_part periods ?c))"
    by auto
  from assms(6) show ?thesis
  proof
    assume nf: "free_part periods ?c = []"
    have "m = ma_data ?c"
      using cm no_free_cond_part [OF nf, of m] no_free_cond_part [OF nf, of "ma_data ?c"] l assms(3)
      by (simp add: ma_data_def)
    moreover have "s = np_zeros (length periods)"
      using cs no_free_cond_part [OF nf, of s] no_free_cond_part [OF nf, of periods] l assms(3)
      by simp
    ultimately show ?thesis using nf r by simp
  next
    assume nc: "cond_part periods ?c = []"
    have fp: "free_part x ?c = x" if "length x = length periods" for x :: "real list"
      using no_cond_free_part [OF nc, of x] that assms(3) by simp
    have "m = ln_psas"
      using fm nc assms(9) assms(4,5) l
      by (simp add: fp conditional_mean_no_cond cov_block_def)
    moreover have "s = np_sqrt (np_diagonal (cov_block correl periods ln_stds periods ln_stds))"
      using fs nc assms(9) assms(4,5) l
      by (simp add: fp conditional_std_no_cond cov_block_def)
    ultimately show ?thesis using nc r by simp
  qed
qed

lemma nomask_raises:
  "calc_cond_mean_spectrum_vector_ma correl linalg_inv periods ln_psas ln_stds (Nomask d)
   = Inl (calc_nomask periods ln_stds)"
  by (simp add: calc_cond_mean_spectrum_vector_ma_def)

lemma calc_ma_Inr:
  "calc_cond_mean_spectrum_vector_ma correl linalg_inv periods ln_psas ln_stds a = Inr r \<longleftrightarrow>
   (\<exists>c. a = Masked c \<and>
        calc_cond_mean_spectrum_vector correl linalg_inv periods ln_psas ln_stds c = Inr r)"
  by (cases a) (simp_all add: calc_cond_mean_spectrum_vector_ma_def)

lemma nomask_example:
  "calc_cond_mean_spectrum_vector_ma example_correl gauss_inv [1, 2] [0, 0] [1, 1] (Nomask [2, 3])
     = Inl ValueError \<and>
   calc_cond_mean_spectrum_vector_ma example_correl gauss_inv [1] [0] [1] (Nomask [2])
     = Inl IndexError"
  by (simp add: calc_cond_mean_spectrum_vector_ma_def calc_nomask_def np_diff_def)

section \<open>The ordering check\<close>

text \<open>
  Claim C6. Whenever \<open>periods\<close> is not strictly increasing, the function raises the
  error of its first check (ValueError, ``periods must be increasing''), whatever the
  other arguments are, and so returns no result.
\<close>

theorem ordering_error:
  "\<not> sorted_wrt (<) periods \<Longrightarrow>
   calc_cond_mean_spectrum_vector correl linalg_inv periods ln_psas ln_stds ln_psas_cond
     = Inl ValueError"
  by (simp add: calc_cond_mean_spectrum_vector_def increasing_iff)

theorem ordering_error_witness:
  "\<not> sorted_wrt (<) [1/2, 1/5, 1 :: real] \<and>
   calc_cond_mean_spectrum_vector example_correl gauss_inv [1/2, 1/5, 1] [0, 0, 0] [1, 1, 1]
     [(0, True), (0, False), (0, True)] = Inl ValueError"
proof -
  have h: "\<not> sorted_wrt (<) [1/2, 1/5, 1 :: real]" by simp
  show ?thesis using h ordering_error [OF h] by simp
qed

section \<open>The conditioning periods in the result\<close>

text \<open>
  Claim C1. Whenever the function returns, at every conditioning index, that is at
  every index whose entry of \<open>ln_psas_cond\<close> is not masked, the returned log-mean is
  exactly the supplied target and the returned log-standard deviation is zero.
\<close>

theorem cmsv_at_conditioning_periods:
  assumes "calc_cond_mean_spectrum_vector correl linalg_inv periods ln_psas ln_stds ln_psas_cond
           = Inr (ln_psas_cmsv, ln_stds_cmsv)"
    and "i < length periods" and "\<not> snd (ln_psas_cond ! i)"
  shows "ln_psas_cmsv ! i = fst (ln_psas_cond ! i) \<and> ln_stds_cmsv ! i = 0"
proof -
  note v = calc_Inr_valid [OF assms(1)]
  from calc_Inr_D [OF assms(1)] have
    l: "length ln_psas_cmsv = length periods" "length ln_stds_cmsv = length periods"
    and m: "cond_part ln_psas_cmsv ln_psas_cond = cond_part (ma_data ln_psas_cond) ln_psas_cond"
    and s: "cond_part ln_stds_cmsv ln_psas_cond
            = np_zeros (length (cond_part periods ln_psas_cond))"
    by auto
  have i: "i < length ln_psas_cond" using v assms(2) by simp
  have "ln_psas_cmsv ! i = ma_data ln_psas_cond ! i"
    by (rule part_nth(2) [OF _ _ i assms(3) m]) (use l v in \<open>simp_all add: ma_data_def\<close>)
  moreover have z: "cond_part ln_stds_cmsv ln_psas_cond
                 = cond_part (replicate (length ln_psas_cond) 0) ln_psas_cond"
    using s by (simp add: np_zeros_def cond_part_replicate [of _ _ periods])
  have "ln_stds_cmsv ! i = replicate (length ln_psas_cond) 0 ! i"
    by (rule part_nth(2) [OF _ _ i assms(3) z]) (use l v in simp_all)
  ultimately show ?thesis using i by (simp add: ma_data_def)
qed

theorem cmsv_at_conditioning_periods_witness:
  "calc_cond_mean_spectrum_vector example_correl gauss_inv [1, 2] [0, 0] [1, 1] [(2, False), (7, True)]
     = Inr ([2, 1], [0, sqrt (3 / 4)]) \<and>
   (0 :: nat) < length [1, 2 :: real] \<and> \<not> snd ([(2 :: real, False), (7, True)] ! 0) \<and>
   [2, 1 :: real] ! 0 = fst ([(2 :: real, False), (7, True)] ! 0) \<and> [0, sqrt (3 / 4)] ! 0 = 0"
  using cmsv_at_conditioning_periods [OF example_run, of 0] by (simp add: example_run)

section \<open>The free periods in the result\<close>

text \<open>
  Claim C3. Whenever the function returns, the inversion of the covariance block of the
  conditioning periods has returned a matrix \<open>c_inv\<close>, and the returned log-means at
  the free periods are the unconditioned log-means there plus the free-to-conditioning
  covariance block times \<open>c_inv\<close> times the residual, the residual being the target
  minus the unconditioned log-mean at the conditioning periods.
\<close>

theorem conditional_mean_at_free_periods:
  fixes correl :: "real \<Rightarrow> real \<Rightarrow> real"
  assumes "calc_cond_mean_spectrum_vector correl linalg_inv periods ln_psas ln_stds ln_psas_cond
           = Inr (ln_psas_cmsv, ln_stds_cmsv)"
  shows "\<exists>c_inv.
           linalg_inv (cov_block correl (cond_part periods ln_psas_cond) (cond_part ln_stds ln_psas_cond)
                         (cond_part periods ln_psas_cond) (cond_part ln_stds ln_psas_cond))
             = Inr c_inv \<and>
           free_part ln_psas_cmsv ln_psas_cond =
             conditional_mean (free_part ln_psas ln_psas_cond)
               (cov_block correl (free_part periods ln_psas_cond) (free_part ln_stds ln_psas_cond)
                  (cond_part periods ln_psas_cond) (cond_part ln_stds ln_psas_cond))
               c_inv
               (residual (cond_part (ma_data ln_psas_cond) ln_psas_cond)
                  (cond_part ln_psas ln_psas_cond))"
  using calc_Inr_D [OF assms] by blast

theorem conditional_mean_at_free_periods_witness:
  "calc_cond_mean_spectrum_vector example_correl gauss_inv [1, 2] [0, 0] [1, 1] [(2, False), (7, True)]
     = Inr ([2, 1], [0, sqrt (3 / 4)]) \<and>
   (\<exists>c_inv.
      gauss_inv (cov_block example_correl
                   (cond_part [1, 2] [(2, False), (7, True)]) (cond_part [1, 1] [(2, False), (7, True)])
                   (cond_part [1, 2] [(2, False), (7, True)]) (cond_part [1, 1] [(2, False), (7, True)]))
        = Inr c_inv \<and>
      free_part [2, 1] [(2, False), (7, True)] =
        conditional_mean (free_part [0, 0] [(2, False), (7, True)])
          (cov_block example_correl
             (free_part [1, 2] [(2, False), (7, True)]) (free_part [1, 1] [(2, False), (7, True)])
             (cond_part [1, 2] [(2, False), (7, True)]) (cond_part [1, 1] [(2, False), (7, True)]))
          c_inv
          (residual (cond_part (ma_data [(2, False), (7, True)]) [(2, False), (7, True)])
             (cond_part [0, 0] [(2, False), (7, True)])))"
  using conditional_mean_at_free_periods [OF example_run] example_run by (intro conjI)

text \<open>
  Claim C4. Whenever the function returns, the returned log-standard deviations at the
  free periods are the square roots of the diagonal of the Schur complement: the
  free-free covariance block minus the free-to-conditioning block times the inverse
  \<open>c_inv\<close> of the conditioning block times the conditioning-to-free block.
\<close>

theorem conditional_std_at_free_periods:
  fixes correl :: "real \<Rightarrow> real \<Rightarrow> real"
  assumes "calc_cond_mean_spectrum_vector correl linalg_inv periods ln_psas ln_stds ln_psas_cond
           = Inr (ln_psas_cmsv, ln_stds_cmsv)"
  shows "\<exists>c_inv.
           linalg_inv (cov_block correl (cond_part periods ln_psas_cond) (cond_part ln_stds ln_psas_cond)
                         (cond_part periods ln_psas_cond) (cond_part ln_stds ln_psas_cond))
             = Inr c_inv \<and>
           free_part ln_stds_cmsv ln_psas_cond =
             conditional_std
               (cov_block correl (free_part periods ln_psas_cond) (free_part ln_stds ln_psas_cond)
                  (free_part periods ln_psas_cond) (free_part ln_stds ln_psas_cond))
               (cov_block correl (free_part periods ln_psas_cond) (free_part ln_stds ln_psas_cond)
                  (cond_part periods ln_psas_cond) (cond_part ln_stds ln_psas_cond))
               c_inv
               (cov_block correl (cond_part periods ln_psas_cond) (cond_part ln_stds ln_psas_cond)
                  (free_part periods ln_psas_cond) (free_part ln_stds ln_psas_cond))"
  using calc_Inr_D [OF assms] by blast

theorem conditional_std_at_free_periods_witness:
  "calc_cond_mean_spectrum_vector example_correl gauss_inv [1, 2] [0, 0] [1, 1] [(2, False), (7, True)]
     = Inr ([2, 1], [0, sqrt (3 / 4)]) \<and>
   (\<exists>c_inv.
      gauss_inv (cov_block example_correl
                   (cond_part [1, 2] [(2, False), (7, True)]) (cond_part [1, 1] [(2, False), (7, True)])
                   (cond_part [1, 2] [(2, False), (7, True)]) (cond_part [1, 1] [(2, False), (7, True)]))
        = Inr c_inv \<and>
      free_part [0, sqrt (3 / 4)] [(2, False), (7, True)] =
        conditional_std
          (cov_block example_correl
             (free_part [1, 2] [(2, False), (7, True)]) (free_part [1, 1] [(2, False), (7, True)])
             (free_part [1, 2] [(2, False), (7, True)]) (free_part [1, 1] [(2, False), (7, True)]))
          (cov_block example_correl
             (free_part [1, 2] [(2, False), (7, True)]) (free_part [1, 1] [(2, False), (7, True)])
             (cond_part [1, 2] [(2, False), (7, True)]) (cond_part [1, 1] [(2, False), (7, True)]))
          c_inv
          (cov_block example_correl
             (cond_part [1, 2] [(2, False), (7, True)]) (cond_part [1, 1] [(2, False), (7, True)])
             (free_part [1, 2] [(2, False), (7, True)]) (free_part [1, 1] [(2, False), (7, True)])))"
  using conditional_std_at_free_periods [OF example_run] example_run by (intro conjI)

section \<open>Length and order of the result\<close>

text \<open>
  Claim C5. Whenever the function returns, both output arrays have the length of
  \<open>periods\<close> and are in the order of the input. The solver's results in the grouped
  order are \<open>means_grouped\<close> (the conditional means at the free periods, then the
  targets) and \<open>stds_grouped\<close> (the conditional standard deviations at the free
  periods, then zeros). The outputs are these two arrays permuted by the argsort of the
  grouped periods; that permutation takes the grouped periods to the input periods;
  and grouping the outputs by the mask, as the periods were grouped, gives
  \<open>means_grouped\<close> and \<open>stds_grouped\<close> again, so entry \<open>i\<close> of each output
  belongs to \<open>periods[i]\<close>.
\<close>

theorem output_aligned_with_input:
  fixes correl :: "real \<Rightarrow> real \<Rightarrow> real"
  assumes "calc_cond_mean_spectrum_vector correl linalg_inv periods ln_psas ln_stds ln_psas_cond
           = Inr (ln_psas_cmsv, ln_stds_cmsv)"
  defines "periods_grouped \<equiv> free_part periods ln_psas_cond @ cond_part periods ln_psas_cond"
  shows "\<exists>c_inv means_grouped stds_grouped.
         linalg_inv (cov_block correl
                       (cond_part periods ln_psas_cond) (cond_part ln_stds ln_psas_cond)
                       (cond_part periods ln_psas_cond) (cond_part ln_stds ln_psas_cond))
           = Inr c_inv \<and>
         means_grouped =
           conditional_mean (free_part ln_psas ln_psas_cond)
             (cov_block correl (free_part periods ln_psas_cond) (free_part ln_stds ln_psas_cond)
                (cond_part periods ln_psas_cond) (cond_part ln_stds ln_psas_cond))
             c_inv
             (residual (cond_part (ma_data ln_psas_cond) ln_psas_cond)
                (cond_part ln_psas ln_psas_cond))
           @ cond_part (ma_data ln_psas_cond) ln_psas_cond \<and>
         stds_grouped =
           conditional_std
             (cov_block correl (free_part periods ln_psas_cond) (free_part ln_stds ln_psas_cond)
                (free_part periods ln_psas_cond) (free_part ln_stds ln_psas_cond))
             (cov_block correl (free_part periods ln_psas_cond) (free_part ln_stds ln_psas_cond)
                (cond_part periods ln_psas_cond) (cond_part ln_stds ln_psas_cond))
             c_inv
             (cov_block correl (cond_part periods ln_psas_cond) (cond_part ln_stds ln_psas_cond)
                (free_part periods ln_psas_cond) (free_part ln_stds ln_psas_cond))
           @ np_zeros (length (cond_part periods ln_psas_cond)) \<and>
         length ln_psas_cmsv = length periods \<and> length ln_stds_cmsv = length periods \<and>
         grouped periods (ma_mask ln_psas_cond) = Inr periods_grouped \<and>
         map (\<lambda>i. periods_grouped ! i) (np_argsort periods_grouped) = periods \<and>
         ln_psas_cmsv = map (\<lambda>i. means_grouped ! i) (np_argsort periods_grouped) \<and>
         ln_stds_cmsv = map (\<lambda>i. stds_grouped ! i) (np_argsort periods_grouped) \<and>
         grouped ln_psas_cmsv (ma_mask ln_psas_cond) = Inr means_grouped \<and>
         grouped ln_stds_cmsv (ma_mask ln_psas_cond) = Inr stds_grouped"
proof -
  note v = calc_Inr_valid [OF assms(1)]
  from calc_Inr_D [OF assms(1)] obtain c_inv where
    ci: "linalg_inv (cov_block correl
                       (cond_part periods ln_psas_cond) (cond_part ln_stds ln_psas_cond)
                       (cond_part periods ln_psas_cond) (cond_part ln_stds ln_psas_cond))
           = Inr c_inv"
    and l: "length ln_psas_cmsv = length periods" "length ln_stds_cmsv = length periods"
    and fm: "free_part ln_psas_cmsv ln_psas_cond =
           conditional_mean (free_part ln_psas ln_psas_cond)
             (cov_block correl (free_part periods ln_psas_cond) (free_part ln_stds ln_psas_cond)
                (cond_part periods ln_psas_cond) (cond_part ln_stds ln_psas_cond))
             c_inv
             (residual (cond_part (ma_data ln_psas_cond) ln_psas_cond)
                (cond_part ln_psas ln_psas_cond))"
    and cm: "cond_part ln_psas_cmsv ln_psas_cond = cond_part (ma_data ln_psas_cond) ln_psas_cond"
    and fs: "free_part ln_stds_cmsv ln_psas_cond =
           conditional_std
             (cov_block correl (free_part periods ln_psas_cond) (free_part ln_stds ln_psas_cond)
                (free_part periods ln_psas_cond) (free_part ln_stds ln_psas_cond))
             (cov_block correl (free_part periods ln_psas_cond) (free_part ln_stds ln_psas_cond)
                (cond_part periods ln_psas_cond) (cond_part ln_stds ln_psas_cond))
             c_inv
             (cov_block correl (cond_part periods ln_psas_cond) (cond_part ln_stds ln_psas_cond)
                (free_part periods ln_psas_cond) (free_part ln_stds ln_psas_cond))"
    and cs: "cond_part ln_stds_cmsv ln_psas_cond = np_zeros (length (cond_part periods ln_psas_cond))"
    by blast
  have lm: "length (ma_mask ln_psas_cond) = length periods" using v by (simp add: ma_mask_def)
  have inc: "sorted_wrt (<) periods" using v by simp
  have pg: "periods_grouped = select periods (ma_mask ln_psas_cond)
              @ select periods (map Not (ma_mask ln_psas_cond))"
    using v by (simp add: periods_grouped_def free_part_select cond_part_select)
  have g: "grouped x (ma_mask ln_psas_cond)
           = Inr (free_part x ln_psas_cond @ cond_part x ln_psas_cond)"
    if "length x = length periods" for x :: "real list"
    using that v lm by (simp add: grouped_eq free_part_select cond_part_select)
  have r: "map (\<lambda>i. (free_part x ln_psas_cond @ cond_part x ln_psas_cond) ! i)
             (np_argsort periods_grouped) = x" if "length x = length periods" for x :: "real list"
    using restore [OF inc lm that] that v by (simp add: pg free_part_select cond_part_select)
  have p: "map (\<lambda>i. periods_grouped ! i) (np_argsort periods_grouped) = periods"
    using r [of periods] by (simp add: periods_grouped_def)
  have gp: "grouped periods (ma_mask ln_psas_cond) = Inr periods_grouped"
    using g [of periods] by (simp add: periods_grouped_def)
  show ?thesis
    using ci l gp p r [OF l(1), symmetric] r [OF l(2), symmetric] g [OF l(1)] g [OF l(2)]
    unfolding fm cm fs cs
    by (intro exI conjI) (rule refl | assumption)+
qed

theorem output_aligned_with_input_witness:
  "calc_cond_mean_spectrum_vector example_correl gauss_inv [1, 2, 3] [1, 3, 5] [2, 3, 1]
     [(0, True), (4, False), (0, True)]
     = Inr ([4 / 3, 4, 31 / 6], [sqrt 3, 0, sqrt (3 / 4)]) \<and>
   np_argsort (free_part [1, 2, 3] [(0, True), (4, False), (0, True)] @ cond_part [1, 2, 3] [(0, True), (4, False), (0, True)]) = [0, 2, 1] \<and>
   grouped [4 / 3, 4, 31 / 6 :: real] (ma_mask [(0, True), (4, False), (0, True)])
     = Inr [4 / 3, 31 / 6, 4] \<and>
   [4 / 3, 4, 31 / 6 :: real] = map (\<lambda>i. [4 / 3, 31 / 6, 4] ! i) [0, 2, 1] \<and>
   map (\<lambda>i. (free_part [1, 2, 3] [(0, True), (4, False), (0, True)] @ cond_part [1, 2, 3] [(0, True), (4, False), (0, True)]) ! i) [0, 2, 1] = [1, 2, 3 :: real]"
proof -
  have a: "np_argsort (free_part [1, 2, 3] [(0, True), (4, False), (0, True)] @ cond_part [1, 2, 3] [(0, True), (4, False), (0, True)]) = [0, 2, 1]"
    by (simp add: np_argsort_def free_part_def cond_part_def numeral_3_eq_3 upt_rec)
  have b: "grouped [4 / 3, 4, 31 / 6 :: real] (ma_mask [(0, True), (4, False), (0, True)])
     = Inr [4 / 3, 31 / 6, 4]"
    by (simp add: grouped_def bool_index_def invert_mask_def np_r_def ma_mask_def)
  have "\<exists>means_grouped.
          grouped [4 / 3, 4, 31 / 6 :: real] (ma_mask [(0, True), (4, False), (0, True)])
            = Inr means_grouped \<and>
          [4 / 3, 4, 31 / 6 :: real] = map (\<lambda>i. means_grouped ! i) (np_argsort (free_part [1, 2, 3] [(0, True), (4, False), (0, True)] @ cond_part [1, 2, 3] [(0, True), (4, False), (0, True)])) \<and>
          map (\<lambda>i. (free_part [1, 2, 3] [(0, True), (4, False), (0, True)] @ cond_part [1, 2, 3] [(0, True), (4, False), (0, True)]) ! i) (np_argsort (free_part [1, 2, 3] [(0, True), (4, False), (0, True)] @ cond_part [1, 2, 3] [(0, True), (4, False), (0, True)])) = [1, 2, 3 :: real]"
    using output_aligned_with_input [OF example_run3]
    apply (elim exE conjE)
    apply (rule exI)
    apply (intro conjI)
      apply assumption
     apply assumption
    apply assumption
    done
  then obtain means_grouped where
    g: "grouped [4 / 3, 4, 31 / 6 :: real] (ma_mask [(0, True), (4, False), (0, True)])
          = Inr means_grouped"
    and m: "[4 / 3, 4, 31 / 6 :: real] = map (\<lambda>i. means_grouped ! i) (np_argsort (free_part [1, 2, 3] [(0, True), (4, False), (0, True)] @ cond_part [1, 2, 3] [(0, True), (4, False), (0, True)]))"
    and p: "map (\<lambda>i. (free_part [1, 2, 3] [(0, True), (4, False), (0, True)] @ cond_part [1, 2, 3] [(0, True), (4, False), (0, True)]) ! i) (np_argsort (free_part [1, 2, 3] [(0, True), (4, False), (0, True)] @ cond_part [1, 2, 3] [(0, True), (4, False), (0, True)])) = [1, 2, 3 :: real]"
    by (elim exE conjE)
  from g b have "means_grouped = [4 / 3, 31 / 6, 4]" by simp
  with m p have c: "[4 / 3, 4, 31 / 6 :: real] = map (\<lambda>i. [4 / 3, 31 / 6, 4] ! i) [0, 2, 1]"
    "map (\<lambda>i. (free_part [1, 2, 3] [(0, True), (4, False), (0, True)] @ cond_part [1, 2, 3] [(0, True), (4, False), (0, True)]) ! i) [0, 2, 1] = [1, 2, 3 :: real]"
    unfolding a by (simp_all only:)
  with example_run3 a b show ?thesis by (intro conjI)
qed

section \<open>The block that is inverted\<close>

text \<open>
  Claim C2. For arrays of equal length and strictly increasing, non-empty periods, the
  function calls the inversion on one matrix only: the covariance block of the
  conditioning periods (the periods whose entry of \<open>ln_psas_cond\<close> is not masked).
  An error of that inversion is the error of the function, and with the returned
  inverse \<open>c_inv\<close> the function computes what it would compute with an inversion
  that returns \<open>c_inv\<close> for every matrix. The block of the free periods is not
  inverted.
\<close>

theorem inverted_block_is_conditioning_block:
  fixes correl :: "real \<Rightarrow> real \<Rightarrow> real"
  assumes "sorted_wrt (<) periods" and "periods \<noteq> []"
    and "length ln_psas_cond = length periods"
    and "length ln_stds = length periods"
    and "length ln_psas = length periods"
  shows "calc_cond_mean_spectrum_vector correl linalg_inv periods ln_psas ln_stds ln_psas_cond =
         bindE (linalg_inv (cov_block correl
                              (cond_part periods ln_psas_cond) (cond_part ln_stds ln_psas_cond)
                              (cond_part periods ln_psas_cond) (cond_part ln_stds ln_psas_cond)))
           (\<lambda>c_inv. calc_cond_mean_spectrum_vector correl (\<lambda>M. Inr c_inv)
                       periods ln_psas ln_stds ln_psas_cond)"
proof -
  have cp: "cond_part periods ln_psas_cond = select periods (map Not (ma_mask ln_psas_cond))"
    "cond_part ln_stds ln_psas_cond = select ln_stds (map Not (ma_mask ln_psas_cond))"
    using assms by (simp_all add: cond_part_select)
  show ?thesis
    unfolding cp
    by (cases "linalg_inv (cov_block correl
                  (select periods (map Not (ma_mask ln_psas_cond)))
                  (select ln_stds (map Not (ma_mask ln_psas_cond)))
                  (select periods (map Not (ma_mask ln_psas_cond)))
                  (select ln_stds (map Not (ma_mask ln_psas_cond))))")
       (simp_all add: calc_cases [OF assms])
qed

theorem inverted_block_is_conditioning_block_witness:
  "sorted_wrt (<) [1, 2 :: real] \<and> [1, 2 :: real] \<noteq> [] \<and>
   length [(2 :: real, False), (7, True)] = length [1, 2 :: real] \<and>
   length [1, 1 :: real] = length [1, 2 :: real] \<and> length [0, 0 :: real] = length [1, 2 :: real] \<and>
   cov_block example_correl
     (cond_part [1, 2] [(2, False), (7, True)]) (cond_part [1, 1] [(2, False), (7, True)])
     (cond_part [1, 2] [(2, False), (7, True)]) (cond_part [1, 1] [(2, False), (7, True)])
     = Mat 1 1 [[1]] \<and>
   gauss_inv (Mat 1 1 [[1]]) = Inr (Mat 1 1 [[1]]) \<and>
   calc_cond_mean_spectrum_vector example_correl gauss_inv [1, 2] [0, 0] [1, 1] [(2, False), (7, True)]
     = calc_cond_mean_spectrum_vector example_correl (\<lambda>M. Inr (Mat 1 1 [[1]]))
         [1, 2] [0, 0] [1, 1] [(2, False), (7, True)]"
proof -
  have p: "sorted_wrt (<) [1, 2 :: real]" "[1, 2 :: real] \<noteq> []"
    "length [(2 :: real, False), (7, True)] = length [1, 2 :: real]"
    "length [1, 1 :: real] = length [1, 2 :: real]" "length [0, 0 :: real] = length [1, 2 :: real]"
    by simp_all
  note t = inverted_block_is_conditioning_block [OF p, of example_correl gauss_inv,
      unfolded example_block example_inverse bindE_Inr]
  from p example_block example_inverse t show ?thesis by (intro conjI)
qed

section \<open>The masked array at the interface\<close>

text \<open>
  Claim C10. The conditioning periods are the entries of \<open>ln_psas_cond\<close> that are not
  masked. When the function returns, a masked array with the same mask and the same
  values at the unmasked entries, whatever it stores at the masked ones, gives the same
  result; the result at the unmasked entries is the stored value; and the inverted
  block has as many rows and columns as there are unmasked entries.
\<close>

theorem conditioning_periods_are_unmasked:
  fixes correl :: "real \<Rightarrow> real \<Rightarrow> real"
  assumes "calc_cond_mean_spectrum_vector correl linalg_inv periods ln_psas ln_stds ln_psas_cond
           = Inr (ln_psas_cmsv, ln_stds_cmsv)"
    and "ma_mask other_cond = ma_mask ln_psas_cond"
    and "cond_part (ma_data other_cond) ln_psas_cond = cond_part (ma_data ln_psas_cond) ln_psas_cond"
  shows "calc_cond_mean_spectrum_vector correl linalg_inv periods ln_psas ln_stds other_cond
           = Inr (ln_psas_cmsv, ln_stds_cmsv) \<and>
         cond_part ln_psas_cmsv ln_psas_cond = cond_part (ma_data ln_psas_cond) ln_psas_cond \<and>
         (\<exists>c_inv.
            linalg_inv (cov_block correl
                          (cond_part periods ln_psas_cond) (cond_part ln_stds ln_psas_cond)
                          (cond_part periods ln_psas_cond) (cond_part ln_stds ln_psas_cond))
              = Inr c_inv \<and> nrows c_inv = ma_count ln_psas_cond \<and> ncols c_inv = ma_count ln_psas_cond) \<and>
         length (cond_part periods ln_psas_cond) = length (filter (\<lambda>(v, b). \<not> b) ln_psas_cond)"
proof -
  have l: "length other_cond = length ln_psas_cond"
    using assms(2) by (metis length_map ma_mask_def)
  have ld: "length (ma_data other_cond) = length ln_psas_cond"
    "length (ma_data ln_psas_cond) = length ln_psas_cond"
    using l by (simp_all add: ma_data_def)
  have sel: "select (ma_data other_cond) (map Not (ma_mask ln_psas_cond))
             = select (ma_data ln_psas_cond) (map Not (ma_mask ln_psas_cond))"
    using assms(3) ld by (simp add: cond_part_select)
  have b: "bool_index (ma_data other_cond) (invert_mask (ma_mask ln_psas_cond))
           = bool_index (ma_data ln_psas_cond) (invert_mask (ma_mask ln_psas_cond))"
    using ld sel by (simp add: bool_index_def select_def invert_mask_def ma_mask_def)
  have cm: "count_masked other_cond = count_masked ln_psas_cond"
    "ma_count other_cond = ma_count ln_psas_cond"
    using assms(2) by (simp_all add: count_masked_def ma_count_def)
  have "calc_cond_mean_spectrum_vector correl linalg_inv periods ln_psas ln_stds other_cond
        = calc_cond_mean_spectrum_vector correl linalg_inv periods ln_psas ln_stds ln_psas_cond"
    unfolding calc_cond_mean_spectrum_vector_def Let_def assms(2) b cm ..
  moreover have "length (cond_part periods ln_psas_cond)
                 = length (filter (\<lambda>(v, b). \<not> b) ln_psas_cond)"
    by (simp add: length_cond_part ma_count_def ma_mask_def filter_map o_def case_prod_unfold)
  ultimately show ?thesis
    using calc_Inr_D [OF assms(1)] assms(1) by (auto simp: length_cond_part)
qed

theorem conditioning_periods_are_unmasked_witness:
  "calc_cond_mean_spectrum_vector example_correl gauss_inv [1, 2] [0, 0] [1, 1] [(2, False), (7, True)]
     = Inr ([2, 1], [0, sqrt (3 / 4)]) \<and>
   ma_mask [(2, False), (100, True)] = ma_mask [(2, False), (7, True)] \<and>
   cond_part (ma_data [(2, False), (100, True)]) [(2, False), (7, True)]
     = cond_part (ma_data [(2, False), (7, True)]) [(2, False), (7, True)] \<and>
   calc_cond_mean_spectrum_vector example_correl gauss_inv [1, 2] [0, 0] [1, 1] [(2, False), (100, True)]
     = Inr ([2, 1], [0, sqrt (3 / 4)]) \<and>
   cond_part [2, 1 :: real] [(2, False), (7, True)] = [2] \<and>
   ma_count [(2, False), (7, True)] = 1"
proof -
  have a: "ma_mask [(2, False), (100, True)] = ma_mask [(2 :: real, False), (7, True)]"
    by (simp add: ma_mask_def)
  have b: "cond_part (ma_data [(2, False), (100, True)]) [(2, False), (7, True)]
     = cond_part (ma_data [(2, False), (7, True)]) [(2, False), (7, True)]"
    by (simp add: cond_part_def ma_data_def numeral_2_eq_2 upt_rec)
  have c: "cond_part [2, 1 :: real] [(2, False), (7, True)] = [2]"
    by (simp add: cond_part_def numeral_2_eq_2 upt_rec)
  have d: "ma_count [(2, False), (7, True)] = 1" by (simp add: ma_count_def ma_mask_def)
  note t = conditioning_periods_are_unmasked [OF example_run a b, THEN conjunct1]
  from example_run a b t c d show ?thesis by (intro conjI)
qed

section \<open>The grouping of the periods\<close>

text \<open>
  Claim C8, as the spec states it: the grouped periods are the conditioning periods
  followed by the free periods. This fails: for three periods of which only the second
  is a conditioning period, the function groups them as first, third, second.
\<close>

theorem grouping_conditioning_first_counterexample:
  "grouped [1, 2, 3 :: real] (ma_mask [(0, True), (5, False), (0, True)]) = Inr [1, 3, 2] \<and>
   cond_part [1, 2, 3 :: real] [(0, True), (5, False), (0, True)]
     @ free_part [1, 2, 3] [(0, True), (5, False), (0, True)] = [2, 1, 3]"
  by (simp add: grouped_def bool_index_def invert_mask_def np_r_def ma_mask_def
      free_part_def cond_part_def numeral_3_eq_3 upt_rec)

text \<open>
  Claim C8, amended: the grouped sequence is the free (masked) entries followed by the
  conditioning (unmasked) entries, each group in the order of the input.
\<close>

theorem grouping_free_then_conditioning:
  "length xs = length ln_psas_cond \<Longrightarrow>
   grouped xs (ma_mask ln_psas_cond) = Inr (free_part xs ln_psas_cond @ cond_part xs ln_psas_cond)"
  by (simp add: grouped_eq free_part_select cond_part_select ma_mask_def)

theorem grouping_free_then_conditioning_witness:
  "length [1, 2, 3 :: real] = length [(0 :: real, True), (5, False), (0, True)] \<and>
   grouped [1, 2, 3 :: real] (ma_mask [(0, True), (5, False), (0, True)])
     = Inr (free_part [1, 2, 3] [(0, True), (5, False), (0, True)]
            @ cond_part [1, 2, 3] [(0, True), (5, False), (0, True)]) \<and>
   free_part [1, 2, 3 :: real] [(0, True), (5, False), (0, True)] = [1, 3] \<and>
   cond_part [1, 2, 3 :: real] [(0, True), (5, False), (0, True)] = [2]"
proof -
  have l: "length [1, 2, 3 :: real] = length [(0 :: real, True), (5, False), (0, True)]" by simp
  show ?thesis
    using grouping_free_then_conditioning [OF l] l
    by (simp add: free_part_def cond_part_def numeral_3_eq_3 upt_rec)
qed

section \<open>Masks without free or without conditioning periods\<close>

text \<open>
  Claim C7, as the spec states it: a mask with no conditioning period or with no free
  period makes the function raise a configuration error and return no result. This
  fails: for a single period that is a conditioning period, with the mask given as the
  array of one flag \<^verbatim>\<open>False\<close>, the function returns the target with standard
  deviation zero.
\<close>

theorem all_conditioning_counterexample:
  "free_part [1 :: real] [(2, False)] = [] \<and>
   calc_cond_mean_spectrum_vector example_correl gauss_inv [1] [0] [1] [(2, False)] = Inr ([2], [0])"
  by (simp add: ev free_part_def)

text \<open>
  Claim C7, amended: the function has no check of the mask. When the mask is a full
  boolean array, with one flag for each period, the arrays have equal lengths, the
  periods are strictly increasing and not empty, the mask has no free period or no
  conditioning period, and the inversion returns a matrix of the order of the
  conditioning block, then the function returns a result: with no free period the
  targets and zero standard deviations, with no conditioning period the unconditioned
  log-means and the square roots of the diagonal of the covariance matrix.
\<close>

theorem degenerate_mask_returns:
  fixes correl :: "real \<Rightarrow> real \<Rightarrow> real"
  assumes "sorted_wrt (<) periods" and "periods \<noteq> []"
    and "length ln_psas_cond = length periods" and "length ln_stds = length periods"
    and "length ln_psas = length periods"
    and "free_part periods ln_psas_cond = [] \<or> cond_part periods ln_psas_cond = []"
    and "linalg_inv (cov_block correl
                       (cond_part periods ln_psas_cond) (cond_part ln_stds ln_psas_cond)
                       (cond_part periods ln_psas_cond) (cond_part ln_stds ln_psas_cond)) = Inr c_inv"
    and "nrows c_inv = length (cond_part periods ln_psas_cond)"
    and "ncols c_inv = length (cond_part periods ln_psas_cond)"
  shows "(free_part periods ln_psas_cond = [] \<and>
          calc_cond_mean_spectrum_vector_ma correl linalg_inv periods ln_psas ln_stds
            (Masked ln_psas_cond)
            = Inr (ma_data ln_psas_cond, np_zeros (length periods))) \<or>
         (cond_part periods ln_psas_cond = [] \<and>
          calc_cond_mean_spectrum_vector_ma correl linalg_inv periods ln_psas ln_stds
            (Masked ln_psas_cond)
            = Inr (ln_psas, np_sqrt (np_diagonal (cov_block correl periods ln_stds periods ln_stds))))"
  using degenerate_mask_full [where linalg_inv = linalg_inv and correl = correl and c_inv = c_inv,
      OF assms]
  by (simp add: calc_cond_mean_spectrum_vector_ma_def)

theorem degenerate_mask_returns_witness:
  "sorted_wrt (<) [1, 2 :: real] \<and> [1, 2 :: real] \<noteq> [] \<and>
   length [(2 :: real, False), (3, False)] = length [1, 2 :: real] \<and>
   length [(0 :: real, True), (0, True)] = length [1, 2 :: real] \<and>
   length [1, 1 :: real] = length [1, 2 :: real] \<and> length [0, 0 :: real] = length [1, 2 :: real] \<and>
   free_part [1, 2 :: real] [(2, False), (3, False)] = [] \<and>
   cond_part [1, 2 :: real] [(0, True), (0, True)] = [] \<and>
   gauss_inv (cov_block example_correl
                (cond_part [1, 2] [(2, False), (3, False)]) (cond_part [1, 1] [(2, False), (3, False)])
                (cond_part [1, 2] [(2, False), (3, False)]) (cond_part [1, 1] [(2, False), (3, False)]))
     = Inr (Mat 2 2 [[4 / 3, - 2 / 3], [- 2 / 3, 4 / 3]]) \<and>
   gauss_inv (cov_block example_correl
                (cond_part [1, 2] [(0, True), (0, True)]) (cond_part [1, 1] [(0, True), (0, True)])
                (cond_part [1, 2] [(0, True), (0, True)]) (cond_part [1, 1] [(0, True), (0, True)]))
     = Inr (Mat 0 0 []) \<and>
   calc_cond_mean_spectrum_vector_ma example_correl gauss_inv [1, 2] [0, 0] [1, 1]
     (Masked [(2, False), (3, False)]) = Inr ([2, 3], [0, 0]) \<and>
   calc_cond_mean_spectrum_vector_ma example_correl gauss_inv [1, 2] [0, 0] [1, 1]
     (Masked [(0, True), (0, True)]) = Inr ([0, 0], [1, 1])"
proof -
  have p: "sorted_wrt (<) [1, 2 :: real]" "[1, 2 :: real] \<noteq> []" by simp_all
  have l1: "length [(2 :: real, False), (3, False)] = length [1, 2 :: real]" by simp
  have l2: "length [(0 :: real, True), (0, True)] = length [1, 2 :: real]" by simp
  have l: "length [1, 1 :: real] = length [1, 2 :: real]" "length [0, 0 :: real] = length [1, 2 :: real]"
    by simp_all
  have f: "free_part [1, 2 :: real] [(2, False), (3, False)] = []"
    by (simp add: free_part_def numeral_2_eq_2 upt_rec)
  have c: "cond_part [1, 2 :: real] [(0, True), (0, True)] = []"
    by (simp add: cond_part_def numeral_2_eq_2 upt_rec)
  have nf: "cond_part [1, 2 :: real] [(2, False), (3, False)] \<noteq> []"
    by (simp add: cond_part_def numeral_2_eq_2 upt_rec)
  have nc: "free_part [1, 2 :: real] [(0, True), (0, True)] \<noteq> []"
    by (simp add: free_part_def numeral_2_eq_2 upt_rec)
  have d1: "free_part [1, 2 :: real] [(2, False), (3, False)] = [] \<or>
            cond_part [1, 2 :: real] [(2, False), (3, False)] = []"
    using f by simp
  have d2: "free_part [1, 2 :: real] [(0, True), (0, True)] = [] \<or>
            cond_part [1, 2 :: real] [(0, True), (0, True)] = []"
    using c by simp
  have g1: "gauss_inv (cov_block example_correl
                (cond_part [1, 2] [(2, False), (3, False)]) (cond_part [1, 1] [(2, False), (3, False)])
                (cond_part [1, 2] [(2, False), (3, False)]) (cond_part [1, 1] [(2, False), (3, False)]))
     = Inr (Mat 2 2 [[4 / 3, - 2 / 3], [- 2 / 3, 4 / 3]])"
    by (simp add: cov_block_def cond_part_def mk_mat_def example_correl_def gauss_inv_def
        identity_rows_def find_pivot_def eliminate_def numeral_2_eq_2 upt_rec)
  have g2: "gauss_inv (cov_block example_correl
                (cond_part [1, 2] [(0, True), (0, True)]) (cond_part [1, 1] [(0, True), (0, True)])
                (cond_part [1, 2] [(0, True), (0, True)]) (cond_part [1, 1] [(0, True), (0, True)]))
     = Inr (Mat 0 0 [])"
    by (simp add: cov_block_def cond_part_def mk_mat_def example_correl_def gauss_inv_def
        identity_rows_def numeral_2_eq_2 upt_rec)
  have n1: "nrows (Mat 2 2 [[4 / 3, - 2 / 3], [- 2 / 3, 4 / 3]])
              = length (cond_part [1, 2 :: real] [(2, False), (3, False)])"
    "ncols (Mat 2 2 [[4 / 3, - 2 / 3], [- 2 / 3, 4 / 3]])
              = length (cond_part [1, 2 :: real] [(2, False), (3, False)])"
    by (simp_all add: cond_part_def numeral_2_eq_2 upt_rec)
  have n2: "nrows (Mat 0 0 []) = length (cond_part [1, 2 :: real] [(0, True), (0, True)])"
    "ncols (Mat 0 0 []) = length (cond_part [1, 2 :: real] [(0, True), (0, True)])"
    by (simp_all add: c)
  have r1: "calc_cond_mean_spectrum_vector_ma example_correl gauss_inv [1, 2] [0, 0] [1, 1]
     (Masked [(2, False), (3, False)]) = Inr ([2, 3], [0, 0])"
    using degenerate_mask_returns [where linalg_inv = gauss_inv and correl = example_correl
        and c_inv = "Mat 2 2 [[4 / 3, - 2 / 3], [- 2 / 3, 4 / 3]]", OF p l1 l d1 g1 n1] nf
    by (simp add: ma_data_def np_zeros_def numeral_2_eq_2)
  have r2: "calc_cond_mean_spectrum_vector_ma example_correl gauss_inv [1, 2] [0, 0] [1, 1]
     (Masked [(0, True), (0, True)]) = Inr ([0, 0], [1, 1])"
    using degenerate_mask_returns [where linalg_inv = gauss_inv and correl = example_correl
        and c_inv = "Mat 0 0 []", OF p l2 l d2 g2 n2] nc
    by (simp add: np_sqrt_def np_diagonal_def cov_block_def mk_mat_def entry_def example_correl_def
        numeral_2_eq_2 upt_rec)
  from p l1 l2 l f c g1 g2 r1 r2 show ?thesis by (intro conjI)
qed

section \<open>The parameters of the Idriss (2014) model: the mechanism domain\<close>

text \<open>
  Claim C9. The claim has the domain of the fault mechanism enumerate strike-slip,
  normal and reverse, as the docstring of the constructor does (``SS'', ``NS'',
  ``RS''). The declared domain in \<open>PARAMS\<close> is ``SS'' and ``RS'' only: the normal
  mechanism ``NS'', with the other parameters inside their ranges, is outside the
  declared domain and fails the validation with the error naming \<open>mechanism\<close>, although
  the response itself would treat it like strike-slip (flag zero).
\<close>

theorem normal_mechanism_rejected:
  "check_inputs PARAMS
     [(''dist_rup'', Num 10), (''mag'', Num 6), (''v_s30'', Num 600), (''mechanism'', Str ''NS'')]
     = Inl (ValidationError ''mechanism'') \<and>
   check_inputs PARAMS
     [(''dist_rup'', Num 10), (''mag'', Num 6), (''v_s30'', Num 600), (''mechanism'', Str ''SS'')]
     = Inr [(''dist_rup'', Some (Num 10)), (''mag'', Some (Num 6)), (''v_s30'', Some (Num 600)),
            (''mechanism'', Some (Str ''SS''))] \<and>
   flag_mech ''NS'' = flag_mech ''SS''"
  by (simp add: PARAMS_def flag_mech_def)

end
